theory Spec2Isabelle
  imports Main "HOL-Library.Word"
begin

section \<open>Data model of main/taskprocessor.c\<close>

text \<open>
  Integer widths follow the LP64 data model: \<open>long\<close> and \<open>unsigned long\<close> are 64-bit
  words, \<open>int\<close> is a 32-bit word. Signed values are read with \<open>sint\<close>. A \<open>void *\<close>
  argument and a task callback (a C function pointer) are opaque identifiers; a pointer
  that the code tests against NULL is an \<open>option\<close>.
\<close>

record tps_task =
  execute :: nat
  datap :: nat

record tps_taskprocessor_stats =
  max_qsize :: "64 word"
  tasks_processed_count :: "64 word"

text \<open>
  \<open>struct ast_taskprocessor\<close>. The type parameter is the representation of the
  \<open>listener\<close> pointer: the listener object itself where one processor is looked at
  alone, an address where processors and listeners live in the reference-counted heap.
\<close>

record 'l ast_taskprocessor =
  name :: string
  stats :: "tps_taskprocessor_stats option"
  tps_queue_size :: "64 word"
  tps_queue :: "tps_task list"
  listener :: "'l option"
  shutting_down :: bool

text \<open>
  The callback table of a listener. Each callback acts on the listener's private data of
  type \<open>'p\<close>; \<open>alloc\<close> and \<open>start\<close> already hold the answer of the environment
  (memory, thread creation) they run in. \<open>destroy\<close> is handed the private data
  pointer, which is NULL when \<open>alloc\<close> failed; its result is \<open>None\<close> where it
  dereferences a NULL pointer.
\<close>

record 'p ast_taskprocessor_listener_callbacks =
  alloc :: "'p option"
  start :: "'p \<Rightarrow> int \<times> 'p"
  task_pushed :: "int \<Rightarrow> 'p \<Rightarrow> 'p"
  emptied :: "'p \<Rightarrow> 'p"
  shutdown :: "'p \<Rightarrow> 'p"
  destroy :: "'p option \<Rightarrow> unit option"

text \<open>A call of a listener callback, as histories and test listeners record it.\<close>

datatype listener_call =
  Start_called | Task_pushed_called int | Emptied_called | Shutdown_called | Destroy_called

record ('p, 't) ast_taskprocessor_listener =
  callbacks :: "'p ast_taskprocessor_listener_callbacks"
  private_data :: 'p
  tps :: "'t option"

subsection \<open>The default listener\<close>

record default_taskprocessor_listener_pvt =
  poll_thread :: "nat option"
  wake_up :: int
  dead :: int

definition default_tps_wake_up ::
  "default_taskprocessor_listener_pvt \<Rightarrow> int \<Rightarrow> default_taskprocessor_listener_pvt" where
  "default_tps_wake_up pvt should_die = pvt\<lparr>wake_up := 1, dead := should_die\<rparr>"

definition default_listener_alloc :: "bool \<Rightarrow> default_taskprocessor_listener_pvt option" where
  "default_listener_alloc calloc_ok =
     (if calloc_ok then Some \<lparr>poll_thread = None, wake_up = 0, dead = 0\<rparr> else None)"

definition default_listener_start ::
  "nat option \<Rightarrow> default_taskprocessor_listener_pvt \<Rightarrow> int \<times> default_taskprocessor_listener_pvt" where
  "default_listener_start created pvt =
     (case created of
        None \<Rightarrow> (- 1, pvt)
      | Some thread \<Rightarrow> (0, pvt\<lparr>poll_thread := Some thread\<rparr>))"

definition default_task_pushed ::
  "int \<Rightarrow> default_taskprocessor_listener_pvt \<Rightarrow> default_taskprocessor_listener_pvt" where
  "default_task_pushed was_empty pvt =
     (if was_empty \<noteq> 0 then default_tps_wake_up pvt 0 else pvt)"

definition default_emptied ::
  "default_taskprocessor_listener_pvt \<Rightarrow> default_taskprocessor_listener_pvt" where
  "default_emptied pvt = pvt"

text \<open>
  \<open>default_tps_idle\<close> waits until \<open>wake_up\<close> is set, clears it and returns
  \<open>dead\<close>; the result is \<open>None\<close> while it waits.
\<close>

definition default_tps_idle ::
  "default_taskprocessor_listener_pvt \<Rightarrow> (int \<times> default_taskprocessor_listener_pvt) option" where
  "default_tps_idle pvt =
     (if wake_up pvt = 0 then None else Some (dead pvt, pvt\<lparr>wake_up := 0\<rparr>))"

text \<open>
  \<open>default_listener_shutdown\<close> wakes the worker with \<open>should_die = 1\<close> and joins it.
  The worker of a started listener leaves its loop through \<open>default_tps_idle\<close>, which
  finds \<open>wake_up\<close> set, clears it and returns \<open>dead\<close>; \<open>pthread_join\<close> returns
  after that. A listener that was never started has no worker, and the join fails at
  once.
\<close>

definition default_listener_shutdown ::
  "default_taskprocessor_listener_pvt \<Rightarrow> default_taskprocessor_listener_pvt" where
  "default_listener_shutdown pvt =
     (let woken = default_tps_wake_up pvt 1;
          joined = (case poll_thread woken of
                      None \<Rightarrow> woken
                    | Some worker \<Rightarrow>
                        (case default_tps_idle woken of
                           None \<Rightarrow> woken
                         | Some (d, idle) \<Rightarrow> idle))
      in joined\<lparr>poll_thread := None\<rparr>)"

definition default_listener_destroy ::
  "default_taskprocessor_listener_pvt option \<Rightarrow> unit option" where
  "default_listener_destroy obj = (case obj of None \<Rightarrow> None | Some pvt \<Rightarrow> Some ())"

text \<open>
  \<open>default_listener_callbacks\<close>, for an environment in which \<open>ast_calloc\<close> answers
  \<open>calloc_ok\<close> and \<open>ast_pthread_create\<close> answers \<open>created\<close> (the new thread, or
  \<open>None\<close> when it fails).
\<close>

definition default_listener_callbacks ::
  "bool \<Rightarrow> nat option \<Rightarrow> default_taskprocessor_listener_pvt ast_taskprocessor_listener_callbacks" where
  "default_listener_callbacks calloc_ok created =
     \<lparr>alloc = default_listener_alloc calloc_ok,
      start = default_listener_start created,
      task_pushed = default_task_pushed,
      emptied = default_emptied,
      shutdown = default_listener_shutdown,
      destroy = default_listener_destroy\<rparr>"

section \<open>The task queue and processor core\<close>

text \<open>
  The memory one processor handle reaches: the processor with its listener, the world the
  task callbacks act on, the number of task envelopes allocated and not yet freed, and
  the tasks whose callback has been called, in call order. A handle is either NULL or
  points to that processor.
\<close>

type_synonym 'p listener_obj = "('p, unit) ast_taskprocessor_listener"

record ('w, 'p) machine =
  taskprocessor :: "'p listener_obj ast_taskprocessor"
  world :: 'w
  envelopes :: int
  invoked :: "tps_task list"

datatype handle = Null | Handle

text \<open>
  The behaviour of the task callbacks: the function pointer and its argument give a status
  code and a new world. The world is what the callbacks act on outside the processor; a
  callback that pushes onto its own processor is a push that falls into the execution,
  as in the interleavings below.
\<close>

type_synonym 'w program = "nat \<Rightarrow> nat \<Rightarrow> 'w \<Rightarrow> int \<times> 'w"

definition tps_task_alloc ::
  "bool \<Rightarrow> nat \<Rightarrow> nat \<Rightarrow> ('w, 'p) machine \<Rightarrow> tps_task option \<times> ('w, 'p) machine" where
  "tps_task_alloc calloc_ok task_exe d m =
     (if calloc_ok
      then (Some \<lparr>execute = task_exe, datap = d\<rparr>, m\<lparr>envelopes := envelopes m + 1\<rparr>)
      else (None, m))"

definition tps_task_free :: "tps_task option \<Rightarrow> ('w, 'p) machine \<Rightarrow> ('w, 'p) machine" where
  "tps_task_free task m =
     (case task of None \<Rightarrow> m | Some t \<Rightarrow> m\<lparr>envelopes := envelopes m - 1\<rparr>)"

definition tps_taskprocessor_pop ::
  "'l ast_taskprocessor \<Rightarrow> tps_task option \<times> 'l ast_taskprocessor" where
  "tps_taskprocessor_pop p =
     (if shutting_down p then (None, p)
      else case tps_queue p of
             [] \<Rightarrow> (None, p)
           | task # rest \<Rightarrow>
               (Some task, p\<lparr>tps_queue := rest, tps_queue_size := tps_queue_size p - 1\<rparr>))"

definition tps_taskprocessor_depth :: "'l ast_taskprocessor option \<Rightarrow> 32 word" where
  "tps_taskprocessor_depth p =
     (case p of None \<Rightarrow> - 1 | Some t \<Rightarrow> ucast (tps_queue_size t))"

text \<open>
  \<open>ast_taskprocessor_push\<close>. The result is \<open>None\<close> where the C code dereferences a NULL
  \<open>tps->listener\<close>.
\<close>

definition ast_taskprocessor_push ::
  "handle \<Rightarrow> nat option \<Rightarrow> nat \<Rightarrow> bool \<Rightarrow> ('w, 'p) machine \<Rightarrow> (int \<times> ('w, 'p) machine) option" where
  "ast_taskprocessor_push h task_exe d calloc_ok m =
     (case (h, task_exe) of
        (Null, _) \<Rightarrow> Some (- 1, m)
      | (Handle, None) \<Rightarrow> Some (- 1, m)
      | (Handle, Some f) \<Rightarrow>
          (case tps_task_alloc calloc_ok f d m of
             (None, m1) \<Rightarrow> Some (- 1, m1)
           | (Some t, m1) \<Rightarrow>
               let p = taskprocessor m1;
                   previous_size = (ucast (tps_queue_size p) :: 32 word);
                   p1 = p\<lparr>tps_queue := tps_queue p @ [t],
                          tps_queue_size := tps_queue_size p + 1\<rparr>
               in (case listener p1 of
                     None \<Rightarrow> None
                   | Some l \<Rightarrow>
                       let l1 = l\<lparr>private_data :=
                                   task_pushed (callbacks l)
                                     (if previous_size \<noteq> 0 then 0 else 1) (private_data l)\<rparr>
                       in Some (0, m1\<lparr>taskprocessor := p1\<lparr>listener := Some l1\<rparr>\<rparr>))))"

text \<open>
  \<open>ast_taskprocessor_execute\<close> in its two parts. \<open>execute_begin\<close> is the pop under the
  lock and the call of the callback, whose status code is dropped. \<open>execute_end\<close> is
  what follows the return of the callback: the envelope is freed, the statistics are
  updated under the lock from the depth read there, and \<open>emptied\<close> is called when that
  depth is zero. The comparison \<open>size > max_qsize\<close> is one of an \<open>int\<close> with an
  \<open>unsigned long\<close>: the \<open>int\<close> is sign-extended and the comparison is unsigned.
\<close>

definition execute_begin ::
  "'w program \<Rightarrow> ('w, 'p) machine \<Rightarrow> tps_task option \<times> ('w, 'p) machine" where
  "execute_begin prog m =
     (case tps_taskprocessor_pop (taskprocessor m) of
        (None, p1) \<Rightarrow> (None, m\<lparr>taskprocessor := p1\<rparr>)
      | (Some t, p1) \<Rightarrow>
          (case prog (execute t) (datap t) (world m) of
             (status, w1) \<Rightarrow>
               (Some t, m\<lparr>taskprocessor := p1, world := w1, invoked := invoked m @ [t]\<rparr>)))"

definition execute_end ::
  "tps_task \<Rightarrow> ('w, 'p) machine \<Rightarrow> (int \<times> ('w, 'p) machine) option" where
  "execute_end t m =
     (let m1 = tps_task_free (Some t) m;
          p = taskprocessor m1;
          size = tps_taskprocessor_depth (Some p);
          p1 = (case stats p of
                  None \<Rightarrow> p
                | Some st \<Rightarrow>
                    let st1 = st\<lparr>tasks_processed_count := tasks_processed_count st + 1\<rparr>
                    in p\<lparr>stats := Some (if (scast size :: 64 word) > max_qsize st1
                                         then st1\<lparr>max_qsize := scast size\<rparr> else st1)\<rparr>)
      in if size = 0
         then (case listener p1 of
                 None \<Rightarrow> None
               | Some l \<Rightarrow>
                   Some (0, m1\<lparr>taskprocessor := p1\<lparr>listener :=
                          Some (l\<lparr>private_data := emptied (callbacks l) (private_data l)\<rparr>)\<rparr>\<rparr>))
         else Some (1, m1\<lparr>taskprocessor := p1\<rparr>))"

definition ast_taskprocessor_execute ::
  "'w program \<Rightarrow> ('w, 'p) machine \<Rightarrow> (int \<times> ('w, 'p) machine) option" where
  "ast_taskprocessor_execute prog m =
     (case execute_begin prog m of
        (None, m1) \<Rightarrow> Some (0, m1)
      | (Some t, m1) \<Rightarrow> execute_end t m1)"

text \<open>
  The worker of the default listener, \<open>tps_processing_function\<close>, from a wake-up to
  its next wait: it calls \<open>ast_taskprocessor_execute\<close> until that returns 0.
\<close>

function tps_processing_loop ::
  "'w program \<Rightarrow> ('w, 'p) machine \<Rightarrow> ('w, 'p) machine option" where
  "tps_processing_loop prog m =
     (case ast_taskprocessor_execute prog m of
        None \<Rightarrow> None
      | Some (r, m1) \<Rightarrow> if r = 0 then Some m1 else tps_processing_loop prog m1)"
  by pat_completeness auto
termination
  by (relation "measure (\<lambda>(prog, m). length (tps_queue (taskprocessor m)))")
     (auto simp: ast_taskprocessor_execute_def execute_begin_def execute_end_def
        tps_taskprocessor_pop_def tps_task_free_def Let_def
        split: if_splits list.splits option.splits prod.splits)

subsection \<open>Fresh processors and runs\<close>

text \<open>
  The processor object as \<open>ast_taskprocessor_create_with_listener\<close> leaves it: zeroed by
  \<open>ao2_alloc\<close>, with zeroed statistics, the name and the listener set.
\<close>

definition new_taskprocessor :: "string \<Rightarrow> 'l \<Rightarrow> 'l ast_taskprocessor" where
  "new_taskprocessor nm l =
     \<lparr>name = nm, stats = Some \<lparr>max_qsize = 0, tasks_processed_count = 0\<rparr>,
      tps_queue_size = 0, tps_queue = [], listener = Some l, shutting_down = False\<rparr>"

definition fresh :: "string \<Rightarrow> 'p listener_obj \<Rightarrow> 'w \<Rightarrow> ('w, 'p) machine" where
  "fresh nm l w =
     \<lparr>taskprocessor = new_taskprocessor nm l, world = w, envelopes = 0, invoked = []\<rparr>"

text \<open>Pushing a list of tasks one after the other, each allocation succeeding.\<close>

fun push_all :: "tps_task list \<Rightarrow> ('w, 'p) machine \<Rightarrow> ('w, 'p) machine option" where
  "push_all [] m = Some m"
| "push_all (t # ts) m =
     (case ast_taskprocessor_push Handle (Some (execute t)) (datap t) True m of
        None \<Rightarrow> None
      | Some (r, m1) \<Rightarrow> if r = 0 then push_all ts m1 else None)"

text \<open>\<open>n\<close> calls of \<open>ast_taskprocessor_execute\<close> in a row, with the list of their results.\<close>

fun execute_times ::
  "nat \<Rightarrow> 'w program \<Rightarrow> ('w, 'p) machine \<Rightarrow> (int list \<times> ('w, 'p) machine) option" where
  "execute_times 0 prog m = Some ([], m)"
| "execute_times (Suc n) prog m =
     (case ast_taskprocessor_execute prog m of
        None \<Rightarrow> None
      | Some (r, m1) \<Rightarrow>
          (case execute_times n prog m1 of
             None \<Rightarrow> None
           | Some (rs, m2) \<Rightarrow> Some (r # rs, m2)))"

subsection \<open>Interleavings\<close>

text \<open>
  The processor's lock is held in \<open>ast_taskprocessor_push\<close> around the append, in
  \<open>tps_taskprocessor_pop\<close>, and in \<open>ast_taskprocessor_execute\<close> around the update of
  the statistics, and not while a callback runs. So pushes (by other threads, or by the
  running callback itself) may fall between the two parts of an execution. A system is
  the machine together with the executions that have popped their task and not yet
  finished, and counters of the pushes that returned 0 and of the executions finished.
\<close>

record ('w, 'p) system =
  mach :: "('w, 'p) machine"
  in_flight :: "tps_task list"
  pushes_ok :: nat
  completions :: nat

datatype action = Push "nat option" nat bool | Begin | End nat

fun step :: "'w program \<Rightarrow> action \<Rightarrow> ('w, 'p) system \<Rightarrow> ('w, 'p) system option" where
  "step prog (Push task_exe d calloc_ok) s =
     (case ast_taskprocessor_push Handle task_exe d calloc_ok (mach s) of
        None \<Rightarrow> None
      | Some (r, m1) \<Rightarrow>
          Some (s\<lparr>mach := m1, pushes_ok := pushes_ok s + (if r = 0 then 1 else 0)\<rparr>))"
| "step prog Begin s =
     (case execute_begin prog (mach s) of
        (None, m1) \<Rightarrow> Some (s\<lparr>mach := m1\<rparr>)
      | (Some t, m1) \<Rightarrow> Some (s\<lparr>mach := m1, in_flight := in_flight s @ [t]\<rparr>))"
| "step prog (End i) s =
     (if i < length (in_flight s)
      then (case execute_end (in_flight s ! i) (mach s) of
              None \<Rightarrow> None
            | Some (r, m1) \<Rightarrow>
                Some (s\<lparr>mach := m1,
                        in_flight := take i (in_flight s) @ drop (Suc i) (in_flight s),
                        completions := completions s + 1\<rparr>))
      else Some s)"

fun run :: "'w program \<Rightarrow> action list \<Rightarrow> ('w, 'p) system \<Rightarrow> ('w, 'p) system option" where
  "run prog [] s = Some s"
| "run prog (a # as) s =
     (case step prog a s of None \<Rightarrow> None | Some s1 \<Rightarrow> run prog as s1)"

definition initial :: "string \<Rightarrow> 'p listener_obj \<Rightarrow> 'w \<Rightarrow> ('w, 'p) system" where
  "initial nm l w = \<lparr>mach = fresh nm l w, in_flight = [], pushes_ok = 0, completions = 0\<rparr>"

section \<open>The registry and the reference-counted lifecycle\<close>

text \<open>
  Processors and listeners are astobj2 objects: each lives at an address and carries a
  reference count. \<open>tps_singletons\<close> is the container of the linked processors. The
  history lists the listener callbacks called by the lifecycle operations, with the
  address of the listener. The result of an operation is \<open>None\<close> where the C code
  uses an object that has been released or dereferences a NULL pointer.
\<close>

record 'p heap =
  processors :: "nat \<Rightarrow> (nat ast_taskprocessor \<times> int) option"
  listeners :: "nat \<Rightarrow> (('p, nat) ast_taskprocessor_listener \<times> int) option"
  tps_singletons :: "nat list"
  history :: "(nat \<times> listener_call) list"

text \<open>
  The answers of the environment to one creation: the addresses \<open>ao2_alloc\<close> returns for
  the listener and for the processor (\<open>None\<close> when it fails), whether \<open>ast_calloc\<close>
  succeeds for the private data and for the statistics, whether \<open>ast_strdup\<close> and
  \<open>ao2_link\<close> succeed, and the thread \<open>ast_pthread_create\<close> starts.
\<close>

record environment =
  listener_obj :: "nat option"
  pvt_calloc :: bool
  tps_obj :: "nat option"
  stats_calloc :: bool
  name_strdup :: bool
  link_ok :: bool
  thread :: "nat option"

text \<open>
  \<open>strcasecmp\<close> of the C library compares without regard to the case of ASCII letters
  (an upper-case letter becomes lower-case by setting bit 5); \<open>tps_cmp_cb\<close> matches
  when it returns 0.
\<close>

definition tolower :: "char \<Rightarrow> char" where
  "tolower c =
     (if 65 \<le> (of_char c :: nat) \<and> (of_char c :: nat) \<le> 90
      then (case c of Char b0 b1 b2 b3 b4 b5 b6 b7 \<Rightarrow> Char b0 b1 b2 b3 b4 True b6 b7)
      else c)"

definition tps_cmp_cb :: "nat ast_taskprocessor \<Rightarrow> string \<Rightarrow> bool" where
  "tps_cmp_cb lhs rhsname \<longleftrightarrow> map tolower (name lhs) = map tolower rhsname"

definition ast_strlen_zero :: "string option \<Rightarrow> bool" where
  "ast_strlen_zero s \<longleftrightarrow> (case s of None \<Rightarrow> True | Some str \<Rightarrow> str = [])"

text \<open>
  Modelled from the spec: \<open>enum ast_tps_options\<close> is declared in taskprocessor.h, which
  is not under src/. The spec has the two modes createIfMissing and onlyIfExists; the
  code tests the mode with \<open>create & TPS_REF_IF_EXISTS\<close>, a flag bit.
\<close>

definition TPS_REF_DEFAULT :: "32 word" where
  "TPS_REF_DEFAULT = 0"

definition TPS_REF_IF_EXISTS :: "32 word" where
  "TPS_REF_IF_EXISTS = 1"

text \<open>
  Modelled from the spec: the astobj2 operations (\<open>ao2_ref\<close>, \<open>ao2_find\<close>,
  \<open>ao2_link\<close>, \<open>ao2_unlink\<close>) are not under src/. The spec has a reference-counted
  lifecycle in which a lookup that finds a processor returns an additional reference,
  the registry holds one reference to each processor it lists, and the storage of an
  object is released when its last reference is dropped. \<open>ao2_ref\<close> changes the count
  by \<open>delta\<close> and returns the count before the change, as the comment in
  \<open>ast_taskprocessor_unreference\<close> has it ("the reference we just got rid of" is one of
  the three counted); when the count reaches zero the destructor of the object runs.
  The destructor of a listener is \<open>listener_destroy\<close>.
\<close>

definition listener_destroy ::
  "nat \<Rightarrow> ('p, nat) ast_taskprocessor_listener \<Rightarrow> 'p heap \<Rightarrow> 'p heap option" where
  "listener_destroy a l h =
     (case destroy (callbacks l) (Some (private_data l)) of
        None \<Rightarrow> None
      | Some u \<Rightarrow> Some (h\<lparr>history := history h @ [(a, Destroy_called)]\<rparr>))"

definition ao2_ref_listener :: "nat \<Rightarrow> int \<Rightarrow> 'p heap \<Rightarrow> (int \<times> 'p heap) option" where
  "ao2_ref_listener a delta h =
     (case listeners h a of
        None \<Rightarrow> None
      | Some (l, count) \<Rightarrow>
          if count + delta \<le> 0
          then (case listener_destroy a l (h\<lparr>listeners := (listeners h)(a := None)\<rparr>) of
                  None \<Rightarrow> None
                | Some h1 \<Rightarrow> Some (count, h1))
          else Some (count, h\<lparr>listeners := (listeners h)(a \<mapsto> (l, count + delta))\<rparr>))"

text \<open>
  \<open>tps_taskprocessor_destroy\<close>, the destructor of a processor: statistics and name are
  freed with the object, and a listener still attached loses one reference.
\<close>

definition tps_taskprocessor_destroy :: "nat ast_taskprocessor \<Rightarrow> 'p heap \<Rightarrow> 'p heap option" where
  "tps_taskprocessor_destroy t h =
     (case listener t of
        None \<Rightarrow> Some h
      | Some la \<Rightarrow> map_option snd (ao2_ref_listener la (- 1) h))"

text \<open>Modelled from the spec: \<open>ao2_ref\<close> on a processor, as described above.\<close>

definition ao2_ref_tps :: "nat \<Rightarrow> int \<Rightarrow> 'p heap \<Rightarrow> (int \<times> 'p heap) option" where
  "ao2_ref_tps a delta h =
     (case processors h a of
        None \<Rightarrow> None
      | Some (t, count) \<Rightarrow>
          if count + delta \<le> 0
          then (case tps_taskprocessor_destroy t (h\<lparr>processors := (processors h)(a := None)\<rparr>) of
                  None \<Rightarrow> None
                | Some h1 \<Rightarrow> Some (count, h1))
          else Some (count, h\<lparr>processors := (processors h)(a \<mapsto> (t, count + delta))\<rparr>))"

text \<open>
  Modelled from the spec: \<open>ao2_find\<close> with \<open>OBJ_KEY\<close> on \<open>tps_singletons\<close>, the
  case-insensitive lookup of the registry by name. It returns the first linked processor
  that \<open>tps_cmp_cb\<close> matches, with one more reference, or NULL.
\<close>

fun tps_lookup :: "nat list \<Rightarrow> string \<Rightarrow> 'p heap \<Rightarrow> nat option option" where
  "tps_lookup [] nm h = Some None"
| "tps_lookup (a # as) nm h =
     (case processors h a of
        None \<Rightarrow> None
      | Some (t, count) \<Rightarrow> if tps_cmp_cb t nm then Some (Some a) else tps_lookup as nm h)"

definition ao2_find :: "string \<Rightarrow> 'p heap \<Rightarrow> (nat option \<times> 'p heap) option" where
  "ao2_find nm h =
     (case tps_lookup (tps_singletons h) nm h of
        None \<Rightarrow> None
      | Some None \<Rightarrow> Some (None, h)
      | Some (Some a) \<Rightarrow>
          (case ao2_ref_tps a 1 h of None \<Rightarrow> None | Some (old, h1) \<Rightarrow> Some (Some a, h1)))"

text \<open>
  Modelled from the spec: \<open>ao2_unlink\<close> removes the processor from the registry, which
  drops the registry's reference; on a processor that is not linked it does nothing.
\<close>

definition ao2_unlink :: "nat \<Rightarrow> 'p heap \<Rightarrow> 'p heap option" where
  "ao2_unlink a h =
     (if a \<in> set (tps_singletons h)
      then map_option snd (ao2_ref_tps a (- 1) (h\<lparr>tps_singletons := remove1 a (tps_singletons h)\<rparr>))
      else Some h)"

text \<open>
  \<open>listener_shutdown\<close>: the \<open>shutdown\<close> callback, then the listener gives up its
  reference to the processor and clears its back pointer. (\<open>ao2_ref\<close> refuses a NULL
  pointer and changes nothing.)
\<close>

definition listener_shutdown :: "nat \<Rightarrow> 'p heap \<Rightarrow> 'p heap option" where
  "listener_shutdown la h =
     (case listeners h la of
        None \<Rightarrow> None
      | Some (l, count) \<Rightarrow>
          let l1 = l\<lparr>private_data := shutdown (callbacks l) (private_data l)\<rparr>;
              h1 = h\<lparr>listeners := (listeners h)(la \<mapsto> (l1, count)),
                     history := history h @ [(la, Shutdown_called)]\<rparr>
          in (case tps l1 of
                None \<Rightarrow> Some h1
              | Some ta \<Rightarrow>
                  (case ao2_ref_tps ta (- 1) h1 of
                     None \<Rightarrow> None
                   | Some (old, h2) \<Rightarrow>
                       (case listeners h2 la of
                          None \<Rightarrow> None
                        | Some (l2, count2) \<Rightarrow>
                            Some (h2\<lparr>listeners :=
                                      (listeners h2)(la \<mapsto> (l2\<lparr>tps := None\<rparr>, count2))\<rparr>)))))"

text \<open>\<open>ast_taskprocessor_unreference\<close>. It returns NULL on every path.\<close>

definition ast_taskprocessor_unreference ::
  "nat option \<Rightarrow> 'p heap \<Rightarrow> (nat option \<times> 'p heap) option" where
  "ast_taskprocessor_unreference tps_ptr h =
     (case tps_ptr of
        None \<Rightarrow> Some (None, h)
      | Some a \<Rightarrow>
          (case ao2_ref_tps a (- 1) h of
             None \<Rightarrow> None
           | Some (old, h1) \<Rightarrow>
               if old > 3 then Some (None, h1)
               else (case ao2_unlink a h1 of
                       None \<Rightarrow> None
                     | Some h2 \<Rightarrow>
                         (case processors h2 a of
                            None \<Rightarrow> None
                          | Some (t, count) \<Rightarrow>
                              let h3 = h2\<lparr>processors :=
                                           (processors h2)(a \<mapsto> (t\<lparr>listener := None\<rparr>, count))\<rparr>
                              in (case listener t of
                                    None \<Rightarrow> None
                                  | Some la \<Rightarrow>
                                      (case listener_shutdown la h3 of
                                         None \<Rightarrow> None
                                       | Some h4 \<Rightarrow>
                                           (case ao2_ref_listener la (- 1) h4 of
                                              None \<Rightarrow> None
                                            | Some (lold, h5) \<Rightarrow> Some (None, h5))))))))"

text \<open>
  Modelled from the spec: \<open>ao2_link\<close> registers the processor, the registry taking a
  reference; \<open>linked\<close> tells whether it succeeds.
\<close>

definition ao2_link :: "bool \<Rightarrow> nat \<Rightarrow> 'p heap \<Rightarrow> (bool \<times> 'p heap) option" where
  "ao2_link linked a h =
     (if linked
      then (case ao2_ref_tps a 1 (h\<lparr>tps_singletons := tps_singletons h @ [a]\<rparr>) of
              None \<Rightarrow> None
            | Some (old, h1) \<Rightarrow> Some (True, h1))
      else Some (False, h))"

text \<open>
  \<open>ast_taskprocessor_listener_alloc\<close>. The listener is allocated with one reference; when
  \<open>alloc\<close> fails the scope exit releases it, and its destructor hands the NULL private
  data to \<open>destroy\<close>.
\<close>

definition ast_taskprocessor_listener_alloc ::
  "'p ast_taskprocessor_listener_callbacks \<Rightarrow> environment \<Rightarrow> 'p heap
     \<Rightarrow> (nat option \<times> 'p heap) option" where
  "ast_taskprocessor_listener_alloc cbs env h =
     (case listener_obj env of
        None \<Rightarrow> Some (None, h)
      | Some a \<Rightarrow>
          (case alloc cbs of
             None \<Rightarrow>
               (case destroy cbs None of
                  None \<Rightarrow> None
                | Some u \<Rightarrow> Some (None, h\<lparr>history := history h @ [(a, Destroy_called)]\<rparr>))
           | Some pd \<Rightarrow>
               Some (Some a,
                 h\<lparr>listeners := (listeners h)
                      (a \<mapsto> (\<lparr>callbacks = cbs, private_data = pd, tps = None\<rparr>, 1))\<rparr>)))"

text \<open>
  \<open>ast_taskprocessor_create_with_listener\<close>. The processor is allocated with one
  reference, which the scope exit drops again on every return. When \<open>ast_strdup\<close>
  fails the code drops that reference itself and the scope exit then uses the released
  object. When \<open>start\<close> fails, \<open>ast_taskprocessor_unreference\<close> runs before the scope
  exit; it finds three references and finalizes the processor, so the scope exit uses a
  released object there too.
\<close>

definition ast_taskprocessor_create_with_listener ::
  "environment \<Rightarrow> string \<Rightarrow> nat \<Rightarrow> 'p heap \<Rightarrow> (nat option \<times> 'p heap) option" where
  "ast_taskprocessor_create_with_listener env nm la h =
     (case tps_obj env of
        None \<Rightarrow> Some (None, h)
      | Some a \<Rightarrow>
          if \<not> stats_calloc env then Some (None, h)
          else if \<not> name_strdup env then None
          else
            (case ao2_ref_listener la 1 h of
               None \<Rightarrow> None
             | Some (lold, h1) \<Rightarrow>
                 let h2 = h1\<lparr>processors := (processors h1)(a \<mapsto> (new_taskprocessor nm la, 2))\<rparr>
                 in (case listeners h2 la of
                       None \<Rightarrow> None
                     | Some (l, lcount) \<Rightarrow>
                         let h3 = h2\<lparr>listeners :=
                                      (listeners h2)(la \<mapsto> (l\<lparr>tps := Some a\<rparr>, lcount))\<rparr>
                         in (case ao2_link (link_ok env) a h3 of
                               None \<Rightarrow> None
                             | Some (False, h4) \<Rightarrow>
                                 map_option (\<lambda>(old, h5). (None, h5)) (ao2_ref_tps a (- 1) h4)
                             | Some (True, h4) \<Rightarrow>
                                 (case start (callbacks l) (private_data l) of
                                    (status, pd) \<Rightarrow>
                                      let h5 = h4\<lparr>listeners := (listeners h4)
                                                    (la \<mapsto> (l\<lparr>tps := Some a, private_data := pd\<rparr>, lcount)),
                                                  history := history h4 @ [(la, Start_called)]\<rparr>
                                      in if status \<noteq> 0
                                         then (case ast_taskprocessor_unreference (Some a) h5 of
                                                 None \<Rightarrow> None
                                               | Some (r, h6) \<Rightarrow>
                                                   map_option (\<lambda>(old, h7). (None, h7))
                                                     (ao2_ref_tps a (- 1) h6))
                                         else Some (Some a, h5))))))"

text \<open>
  \<open>ast_taskprocessor_get\<close>, which creates processors with the default listener. Locks
  are not part of this model, so the \<open>ao2_unlock\<close> on the path of a found processor
  has no counterpart here.
\<close>

definition ast_taskprocessor_get ::
  "environment \<Rightarrow> string option \<Rightarrow> 32 word \<Rightarrow> default_taskprocessor_listener_pvt heap
     \<Rightarrow> (nat option \<times> default_taskprocessor_listener_pvt heap) option" where
  "ast_taskprocessor_get env nm create h =
     (case nm of
        None \<Rightarrow> Some (None, h)
      | Some str \<Rightarrow>
          if ast_strlen_zero nm then Some (None, h)
          else
            (case ao2_find str h of
               None \<Rightarrow> None
             | Some (Some p, h1) \<Rightarrow> Some (Some p, h1)
             | Some (None, h1) \<Rightarrow>
                 if and create TPS_REF_IF_EXISTS \<noteq> 0 then Some (None, h1)
                 else
                   (case ast_taskprocessor_listener_alloc
                           (default_listener_callbacks (pvt_calloc env) (thread env)) env h1 of
                      None \<Rightarrow> None
                    | Some (None, h2) \<Rightarrow> Some (None, h2)
                    | Some (Some la, h2) \<Rightarrow>
                        (case ast_taskprocessor_create_with_listener env str la h2 of
                           None \<Rightarrow> None
                         | Some (p, h3) \<Rightarrow>
                             (case ao2_ref_listener la (- 1) h3 of
                                None \<Rightarrow> None
                              | Some (old, h4) \<Rightarrow> Some (p, h4))))))"

section \<open>Fixtures and auxiliary predicates\<close>

text \<open>
  A listener that records the callbacks it receives, and a program in which every task
  appends its argument to a shared log and returns its function pointer as status: the
  listener and the tasks of a test.
\<close>

definition recording_start :: "listener_call list \<Rightarrow> int \<times> listener_call list" where
  "recording_start p = (0, p @ [Start_called])"

definition recording_task_pushed :: "int \<Rightarrow> listener_call list \<Rightarrow> listener_call list" where
  "recording_task_pushed was_empty p = p @ [Task_pushed_called was_empty]"

definition recording_emptied :: "listener_call list \<Rightarrow> listener_call list" where
  "recording_emptied p = p @ [Emptied_called]"

definition recording_shutdown :: "listener_call list \<Rightarrow> listener_call list" where
  "recording_shutdown p = p @ [Shutdown_called]"

definition recording_destroy :: "listener_call list option \<Rightarrow> unit option" where
  "recording_destroy p = Some ()"

definition recording_callbacks :: "listener_call list ast_taskprocessor_listener_callbacks" where
  "recording_callbacks =
     \<lparr>alloc = Some [], start = recording_start, task_pushed = recording_task_pushed,
      emptied = recording_emptied, shutdown = recording_shutdown, destroy = recording_destroy\<rparr>"

definition recording_listener :: "listener_call list listener_obj" where
  "recording_listener = \<lparr>callbacks = recording_callbacks, private_data = [], tps = Some ()\<rparr>"

definition logging_program :: "nat list program" where
  "logging_program f d w = (int f, w @ [d])"

definition task :: "nat \<Rightarrow> nat \<Rightarrow> tps_task" where
  "task f d = \<lparr>execute = f, datap = d\<rparr>"

text \<open>The effect of the callbacks of a list of tasks on the world, run in list order.\<close>

definition run_callbacks :: "'w program \<Rightarrow> tps_task list \<Rightarrow> 'w \<Rightarrow> 'w" where
  "run_callbacks prog ts w = foldl (\<lambda>w t. snd (prog (execute t) (datap t) w)) w ts"

definition failing_program :: "nat list program" where
  "failing_program f d w = (- 1, w @ [d])"

definition test_machine :: "(nat list, listener_call list) machine" where
  "test_machine = fresh ''tps'' recording_listener []"

definition test_system :: "(nat list, listener_call list) system" where
  "test_system = initial ''tps'' recording_listener []"

text \<open>The machine after one push and after two pushes onto \<open>test_machine\<close>.\<close>

definition one_queued :: "(nat list, listener_call list) machine" where
  "one_queued =
     \<lparr>taskprocessor =
        \<lparr>name = ''tps'', stats = Some \<lparr>max_qsize = 0, tasks_processed_count = 0\<rparr>,
         tps_queue_size = 1, tps_queue = [task 1 10],
         listener = Some (recording_listener\<lparr>private_data := [Task_pushed_called 1]\<rparr>),
         shutting_down = False\<rparr>,
      world = [], envelopes = 1, invoked = []\<rparr>"

definition two_queued :: "(nat list, listener_call list) machine" where
  "two_queued =
     \<lparr>taskprocessor =
        \<lparr>name = ''tps'', stats = Some \<lparr>max_qsize = 0, tasks_processed_count = 0\<rparr>,
         tps_queue_size = 2, tps_queue = [task 1 10, task 2 20],
         listener = Some (recording_listener
           \<lparr>private_data := [Task_pushed_called 1, Task_pushed_called 0]\<rparr>),
         shutting_down = False\<rparr>,
      world = [], envelopes = 2, invoked = []\<rparr>"

text \<open>A system whose processor has one queued task and is shutting down.\<close>

definition stopping_system :: "(nat list, listener_call list) system" where
  "stopping_system =
     \<lparr>mach = one_queued\<lparr>taskprocessor := (taskprocessor one_queued)\<lparr>shutting_down := True\<rparr>\<rparr>,
      in_flight = [], pushes_ok = 1, completions = 0\<rparr>"

text \<open>The registry before any processor exists, and an environment in which all succeeds.\<close>

definition empty_heap :: "'p heap" where
  "empty_heap = \<lparr>processors = (\<lambda>a. None), listeners = (\<lambda>a. None), tps_singletons = [],
     history = []\<rparr>"

definition plenty :: "nat \<Rightarrow> nat \<Rightarrow> environment" where
  "plenty la a = \<lparr>listener_obj = Some la, pvt_calloc = True, tps_obj = Some a,
     stats_calloc = True, name_strdup = True, link_ok = True, thread = Some 1\<rparr>"

text \<open>
  The registry after \<open>ast_taskprocessor_get\<close> has created the processor "alpha", and
  after a second lookup has taken one more reference to it.
\<close>

definition alpha_heap :: "default_taskprocessor_listener_pvt heap" where
  "alpha_heap =
     \<lparr>processors = (\<lambda>a. None)(100 \<mapsto> (new_taskprocessor ''alpha'' 200, 3)),
      listeners = (\<lambda>a. None)(200 \<mapsto>
        (\<lparr>callbacks = default_listener_callbacks True (Some 1),
          private_data = \<lparr>poll_thread = Some 1, wake_up = 0, dead = 0\<rparr>,
          tps = Some 100\<rparr>, 1)),
      tps_singletons = [100],
      history = [(200, Start_called)]\<rparr>"

definition alpha_heap_shared :: "default_taskprocessor_listener_pvt heap" where
  "alpha_heap_shared =
     alpha_heap\<lparr>processors := (\<lambda>a. None)(100 \<mapsto> (new_taskprocessor ''alpha'' 200, 4))\<rparr>"

text \<open>
  The counter agrees with the queue (as 64-bit words); the pushes that succeeded are the
  tasks queued, in execution, or completed; both hold of a system whose listener pointer
  is set.
\<close>

definition counted :: "'l ast_taskprocessor \<Rightarrow> bool" where
  "counted p \<longleftrightarrow> tps_queue_size p = of_nat (length (tps_queue p))"

definition balanced :: "('w, 'p) system \<Rightarrow> bool" where
  "balanced s \<longleftrightarrow>
     length (tps_queue (taskprocessor (mach s))) + length (in_flight s) + completions s
       = pushes_ok s"

definition sound :: "('w, 'p) system \<Rightarrow> bool" where
  "sound s \<longleftrightarrow>
     listener (taskprocessor (mach s)) \<noteq> None \<and> counted (taskprocessor (mach s)) \<and> balanced s"


section \<open>Properties of the processor core\<close>

lemmas core_defs = ast_taskprocessor_push_def ast_taskprocessor_execute_def
  execute_begin_def execute_end_def tps_taskprocessor_pop_def tps_task_free_def
  tps_task_alloc_def tps_taskprocessor_depth_def

lemmas fixture_defs = test_machine_def test_system_def one_queued_def two_queued_def
  stopping_system_def fresh_def initial_def new_taskprocessor_def recording_listener_def
  recording_callbacks_def recording_task_pushed_def recording_emptied_def
  logging_program_def failing_program_def task_def

lemma one_queued_reached: "push_all [task 1 10] test_machine = Some one_queued"
  by (simp add: fixture_defs ast_taskprocessor_push_def tps_task_alloc_def Let_def)

lemma two_queued_reached: "push_all [task 1 10, task 2 20] test_machine = Some two_queued"
  by (simp add: fixture_defs ast_taskprocessor_push_def tps_task_alloc_def Let_def)

lemma push_ok:
  assumes "listener (taskprocessor m) \<noteq> None"
  shows "\<exists>m1. ast_taskprocessor_push Handle (Some f) d True m = Some (0, m1)
     \<and> tps_queue (taskprocessor m1) = tps_queue (taskprocessor m) @ [\<lparr>execute = f, datap = d\<rparr>]
     \<and> tps_queue_size (taskprocessor m1) = tps_queue_size (taskprocessor m) + 1
     \<and> stats (taskprocessor m1) = stats (taskprocessor m)
     \<and> shutting_down (taskprocessor m1) = shutting_down (taskprocessor m)
     \<and> listener (taskprocessor m1) \<noteq> None
     \<and> world m1 = world m \<and> invoked m1 = invoked m \<and> envelopes m1 = envelopes m + 1"
  using assms
  by (auto simp: ast_taskprocessor_push_def tps_task_alloc_def Let_def split: option.splits)

lemma push_all_ok:
  "listener (taskprocessor m) \<noteq> None \<Longrightarrow>
   \<exists>m1. push_all ts m = Some m1
     \<and> tps_queue (taskprocessor m1) = tps_queue (taskprocessor m) @ ts
     \<and> tps_queue_size (taskprocessor m1) = tps_queue_size (taskprocessor m) + of_nat (length ts)
     \<and> stats (taskprocessor m1) = stats (taskprocessor m)
     \<and> shutting_down (taskprocessor m1) = shutting_down (taskprocessor m)
     \<and> listener (taskprocessor m1) \<noteq> None
     \<and> world m1 = world m \<and> invoked m1 = invoked m
     \<and> envelopes m1 = envelopes m + int (length ts)"
proof (induction ts arbitrary: m)
  case Nil
  then show ?case by simp
next
  case (Cons t ts)
  from push_ok [OF Cons.prems, of "execute t" "datap t"]
  obtain m1 where p: "ast_taskprocessor_push Handle (Some (execute t)) (datap t) True m = Some (0, m1)"
    and q: "tps_queue (taskprocessor m1) = tps_queue (taskprocessor m) @ [t]"
    and s: "tps_queue_size (taskprocessor m1) = tps_queue_size (taskprocessor m) + 1"
    and r: "stats (taskprocessor m1) = stats (taskprocessor m)"
      "shutting_down (taskprocessor m1) = shutting_down (taskprocessor m)"
      "listener (taskprocessor m1) \<noteq> None"
      "world m1 = world m" "invoked m1 = invoked m" "envelopes m1 = envelopes m + 1"
    by auto
  from Cons.IH [OF r(3)] obtain m2 where
    "push_all ts m1 = Some m2"
    "tps_queue (taskprocessor m2) = tps_queue (taskprocessor m1) @ ts"
    "tps_queue_size (taskprocessor m2) = tps_queue_size (taskprocessor m1) + of_nat (length ts)"
    "stats (taskprocessor m2) = stats (taskprocessor m1)"
    "shutting_down (taskprocessor m2) = shutting_down (taskprocessor m1)"
    "listener (taskprocessor m2) \<noteq> None"
    "world m2 = world m1" "invoked m2 = invoked m1"
    "envelopes m2 = envelopes m1 + int (length ts)"
    by auto
  with p q s r show ?case by simp
qed

lemma execute_head:
  assumes "listener (taskprocessor m) \<noteq> None" "\<not> shutting_down (taskprocessor m)"
    "tps_queue (taskprocessor m) = t # rest"
  shows "\<exists>r m1. ast_taskprocessor_execute prog m = Some (r, m1)
     \<and> tps_queue (taskprocessor m1) = rest
     \<and> tps_queue_size (taskprocessor m1) = tps_queue_size (taskprocessor m) - 1
     \<and> \<not> shutting_down (taskprocessor m1)
     \<and> listener (taskprocessor m1) \<noteq> None
     \<and> world m1 = snd (prog (execute t) (datap t) (world m))
     \<and> invoked m1 = invoked m @ [t] \<and> envelopes m1 = envelopes m - 1"
  using assms
  by (auto simp: core_defs Let_def split: option.splits prod.splits)

lemma execute_times_queue:
  "listener (taskprocessor m) \<noteq> None \<Longrightarrow> \<not> shutting_down (taskprocessor m) \<Longrightarrow>
   tps_queue (taskprocessor m) = q \<Longrightarrow>
   \<exists>rs m1. execute_times (length q) prog m = Some (rs, m1)
     \<and> tps_queue (taskprocessor m1) = []
     \<and> world m1 = run_callbacks prog q (world m)
     \<and> invoked m1 = invoked m @ q \<and> envelopes m1 = envelopes m - int (length q)"
proof (induction q arbitrary: m)
  case Nil
  then show ?case by (simp add: run_callbacks_def)
next
  case (Cons t q)
  from execute_head [OF Cons.prems(1,2,3), of prog]
  obtain r m1 where e: "ast_taskprocessor_execute prog m = Some (r, m1)"
     and f: "tps_queue (taskprocessor m1) = q"
     "\<not> shutting_down (taskprocessor m1)"
     "listener (taskprocessor m1) \<noteq> None"
     "world m1 = snd (prog (execute t) (datap t) (world m))"
     "invoked m1 = invoked m @ [t]" "envelopes m1 = envelopes m - 1"
    by blast
  from Cons.IH [OF f(3) f(2) f(1)] obtain rs m2 where
    "execute_times (length q) prog m1 = Some (rs, m2)"
    "tps_queue (taskprocessor m2) = []"
    "world m2 = run_callbacks prog q (world m1)"
    "invoked m2 = invoked m1 @ q" "envelopes m2 = envelopes m1 - int (length q)"
    by blast
  with e f show ?case by (simp add: run_callbacks_def)
qed

text \<open>
  C1. Push any list of tasks onto a fresh processor, then call execute-one once per task:
  every call succeeds, the queue ends empty, and the callbacks have been called in exactly
  the order of the pushes (the list of called tasks is the list pushed, and the world is
  the one obtained by running the callbacks in that order).
\<close>

theorem push_order_is_execution_order:
  "\<exists>m1 rs m2. push_all ts (fresh nm l w) = Some m1
     \<and> tps_queue (taskprocessor m1) = ts
     \<and> execute_times (length ts) prog m1 = Some (rs, m2)
     \<and> tps_queue (taskprocessor m2) = []
     \<and> invoked m2 = ts
     \<and> world m2 = run_callbacks prog ts w"
proof -
  have l: "listener (taskprocessor (fresh nm l w)) \<noteq> None"
    by (simp add: fresh_def new_taskprocessor_def)
  from push_all_ok [OF l, of ts] obtain m1 where
    a: "push_all ts (fresh nm l w) = Some m1"
    "tps_queue (taskprocessor m1) = ts" "\<not> shutting_down (taskprocessor m1)"
    "listener (taskprocessor m1) \<noteq> None" "world m1 = w" "invoked m1 = []"
    by (auto simp: fresh_def new_taskprocessor_def)
  from execute_times_queue [OF a(4) a(3) a(2), of prog] a show ?thesis
    by auto
qed

theorem push_order_is_execution_order_witness:
  "\<exists>m1 rs m2. push_all [task 1 10, task 2 20, task 3 30] test_machine = Some m1
     \<and> execute_times 3 logging_program m1 = Some (rs, m2)
     \<and> invoked m2 = [task 1 10, task 2 20, task 3 30]
     \<and> world m2 = [10, 20, 30]"
proof -
  have "run_callbacks logging_program [task 1 10, task 2 20, task 3 30] [] = [10, 20, 30]"
    by (simp add: run_callbacks_def logging_program_def task_def)
  moreover have "length [task 1 10, task 2 20, task 3 30] = 3" by simp
  moreover note push_order_is_execution_order
    [of "[task 1 10, task 2 20, task 3 30]" "''tps''" recording_listener "[]" logging_program]
  ultimately show ?thesis unfolding test_machine_def by metis
qed

lemma sint_depth_of_nat:
  assumes "n < 2 ^ 31"
  shows "sint (ucast (of_nat n :: 64 word) :: 32 word) = int n"
proof -
  from assms have "n < 2 ^ 64" by (rule less_trans) simp
  then have "uint (of_nat n :: 64 word) = int n"
    by (simp add: unsigned_of_nat take_bit_nat_eq_self)
  moreover from assms have "int n < 2 ^ 31" by (metis of_nat_less_iff of_nat_numeral of_nat_power)
  ultimately show ?thesis
    by (simp add: signed_ucast_eq signed_take_bit_int_eq_self)
qed

lemma sint_size_of_nat:
  assumes "n < 2 ^ 63"
  shows "sint (of_nat n :: 64 word) = int n"
proof -
  from assms have "int n < 2 ^ 63" by (metis of_nat_less_iff of_nat_numeral of_nat_power)
  then show ?thesis
    by (simp add: signed_of_nat signed_take_bit_int_eq_self)
qed

lemma step_push_sound:
  assumes "sound s"
  shows "\<exists>s1. step prog (Push task_exe d calloc_ok) s = Some s1 \<and> sound s1"
proof (cases "task_exe = None \<or> \<not> calloc_ok")
  case True
  then have "ast_taskprocessor_push Handle task_exe d calloc_ok (mach s) = Some (- 1, mach s)"
    by (auto simp: ast_taskprocessor_push_def tps_task_alloc_def split: option.splits)
  with assms show ?thesis by (simp add: sound_def balanced_def)
next
  case False
  then obtain f where f: "task_exe = Some f" and c: calloc_ok by auto
  from assms obtain l where l: "listener (taskprocessor (mach s)) = Some l"
    by (auto simp: sound_def)
  with f c assms show ?thesis
    by (simp add: ast_taskprocessor_push_def tps_task_alloc_def Let_def sound_def counted_def balanced_def)
qed

lemma step_begin_sound:
  assumes "sound s"
  shows "\<exists>s1. step prog Begin s = Some s1 \<and> sound s1"
  using assms
  by (auto simp: execute_begin_def tps_taskprocessor_pop_def sound_def counted_def balanced_def
      split: list.splits prod.splits)

lemma step_end_sound:
  assumes "sound s"
  shows "\<exists>s1. step prog (End i) s = Some s1 \<and> sound s1"
proof (cases "i < length (in_flight s)")
  case False
  with assms show ?thesis by simp
next
  case True
  from assms obtain l where l: "listener (taskprocessor (mach s)) = Some l"
    by (auto simp: sound_def)
  from True have len: "length (take i (in_flight s) @ drop (Suc i) (in_flight s)) + 1 = length (in_flight s)"
    by simp
  show ?thesis
  proof (cases "stats (taskprocessor (mach s))")
    case None
    with True l len assms show ?thesis
      by (auto simp: execute_end_def tps_task_free_def tps_taskprocessor_depth_def Let_def
          sound_def counted_def balanced_def simp del: length_append length_take length_drop)
  next
    case (Some st)
    with True l len assms show ?thesis
      by (auto simp: execute_end_def tps_task_free_def tps_taskprocessor_depth_def Let_def
          sound_def counted_def balanced_def simp del: length_append length_take length_drop)
  qed
qed

lemma step_sound:
  assumes "sound s"
  shows "\<exists>s1. step prog a s = Some s1 \<and> sound s1"
  using assms step_push_sound step_begin_sound step_end_sound
  by (cases a) blast+

lemma run_sound:
  "sound s \<Longrightarrow> \<exists>s1. run prog acts s = Some s1 \<and> sound s1"
proof (induction acts arbitrary: s)
  case Nil
  then show ?case by simp
next
  case (Cons a acts)
  from step_sound [OF Cons.prems, of prog a] obtain s2
    where "step prog a s = Some s2" "sound s2" by blast
  with Cons.IH [of s2] show ?case by simp
qed

lemma initial_sound: "sound (initial nm l w)"
  by (simp add: sound_def counted_def balanced_def initial_def fresh_def new_taskprocessor_def)

text \<open>
  C3. From a fresh processor, let pushes and the two halves of executions interleave in
  any way (a push may fall while callbacks run, several executions may overlap). The run
  never faults, and at its end \<open>tps_queue_size\<close> equals the length of the queue, as a
  64-bit word always and as a signed number whenever the queue is shorter than \<open>2^63\<close>.
  The successful pushes are exactly the tasks queued, in execution, or completed; so when
  no execution is under way and fewer than \<open>2^31\<close> tasks remain (the range of the
  \<open>int\<close> that \<open>tps_taskprocessor_depth\<close> returns), the depth is the number of
  successful pushes minus the number of completed executions.
\<close>

theorem queue_size_counts_queue:
  "\<exists>s. run prog acts (initial nm l w) = Some s
     \<and> tps_queue_size (taskprocessor (mach s)) = of_nat (length (tps_queue (taskprocessor (mach s))))
     \<and> (length (tps_queue (taskprocessor (mach s))) < 2 ^ 63 \<longrightarrow>
          sint (tps_queue_size (taskprocessor (mach s))) = int (length (tps_queue (taskprocessor (mach s)))))
     \<and> length (tps_queue (taskprocessor (mach s))) + length (in_flight s) + completions s = pushes_ok s
     \<and> (in_flight s = [] \<and> pushes_ok s - completions s < 2 ^ 31 \<longrightarrow>
          completions s \<le> pushes_ok s
          \<and> sint (tps_taskprocessor_depth (Some (taskprocessor (mach s))))
              = int (pushes_ok s) - int (completions s))"
proof -
  from run_sound [of "initial nm l w" prog acts] initial_sound [of nm l w] obtain s
    where r: "run prog acts (initial nm l w) = Some s" and s: "sound s" by blast
  let ?q = "tps_queue (taskprocessor (mach s))"
  from s have c: "tps_queue_size (taskprocessor (mach s)) = of_nat (length ?q)"
    and b: "length ?q + length (in_flight s) + completions s = pushes_ok s"
    by (simp_all add: sound_def counted_def balanced_def)
  have d: "completions s \<le> pushes_ok s
      \<and> sint (tps_taskprocessor_depth (Some (taskprocessor (mach s))))
              = int (pushes_ok s) - int (completions s)"
    if "in_flight s = []" "pushes_ok s - completions s < 2 ^ 31"
  proof -
    from that b have e: "int (length ?q) = int (pushes_ok s) - int (completions s)"
      and f: "completions s \<le> pushes_ok s" and g: "length ?q < 2 ^ 31"
      by simp_all
    have "sint (tps_taskprocessor_depth (Some (taskprocessor (mach s)))) = int (length ?q)"
      unfolding tps_taskprocessor_depth_def option.case c by (rule sint_depth_of_nat [OF g])
    with e f show ?thesis by simp
  qed
  from r c b d show ?thesis
    by (auto simp: sint_size_of_nat)
qed

theorem queue_size_counts_queue_witness:
  "\<exists>s. run logging_program [Push (Some 1) 10 True, Push (Some 2) 20 True, Begin, End 0]
          test_system = Some s
     \<and> in_flight s = [] \<and> pushes_ok s = 2 \<and> completions s = 1
     \<and> tps_queue (taskprocessor (mach s)) = [task 2 20]
     \<and> sint (tps_queue_size (taskprocessor (mach s))) = 1
     \<and> sint (tps_taskprocessor_depth (Some (taskprocessor (mach s)))) = 1"
proof -
  let ?acts = "[Push (Some 1) 10 True, Push (Some 2) 20 True, Begin, End 0]"
  from queue_size_counts_queue [of logging_program ?acts "''tps''" recording_listener "[]"]
  obtain s where r: "run logging_program ?acts test_system = Some s"
    and a: "length (tps_queue (taskprocessor (mach s))) < 2 ^ 63 \<longrightarrow>
          sint (tps_queue_size (taskprocessor (mach s))) = int (length (tps_queue (taskprocessor (mach s))))"
    and b: "in_flight s = [] \<and> pushes_ok s - completions s < 2 ^ 31 \<longrightarrow>
          completions s \<le> pushes_ok s
          \<and> sint (tps_taskprocessor_depth (Some (taskprocessor (mach s))))
              = int (pushes_ok s) - int (completions s)"
    unfolding test_system_def by blast
  have "\<exists>s1. run logging_program ?acts test_system = Some s1
      \<and> in_flight s1 = [] \<and> pushes_ok s1 = 2 \<and> completions s1 = 1
      \<and> tps_queue (taskprocessor (mach s1)) = [task 2 20]"
    by (simp add: fixture_defs core_defs Let_def)
  with r have c: "in_flight s = []" "pushes_ok s = 2" "completions s = 1"
    "tps_queue (taskprocessor (mach s)) = [task 2 20]"
    by auto
  with a b have "sint (tps_queue_size (taskprocessor (mach s))) = 1"
    "sint (tps_taskprocessor_depth (Some (taskprocessor (mach s)))) = 1"
    by simp_all
  with r c show ?thesis by blast
qed

text \<open>
  C7. A push with a NULL handle, a NULL callback or a failed allocation of the envelope
  returns -1 and leaves the whole machine as it was: queue, counter, statistics, and the
  listener, none of whose callbacks is called. A push returns nothing but -1 and 0, and
  it returns -1 only in these three cases.
\<close>

theorem push_failure_leaves_state:
  "(h = Null \<or> task_exe = None \<or> \<not> calloc_ok \<longrightarrow>
      ast_taskprocessor_push h task_exe d calloc_ok m = Some (- 1, m)) \<and>
   (\<forall>r m1. ast_taskprocessor_push h task_exe d calloc_ok m = Some (r, m1) \<longrightarrow>
      (r = - 1 \<and> m1 = m \<and> (h = Null \<or> task_exe = None \<or> \<not> calloc_ok))
      \<or> (r = 0 \<and> h = Handle \<and> task_exe \<noteq> None \<and> calloc_ok))"
  by (cases h; cases task_exe; cases calloc_ok)
     (auto simp: ast_taskprocessor_push_def tps_task_alloc_def Let_def split: option.splits)

theorem push_failure_leaves_state_witness:
  "ast_taskprocessor_push Null (Some 1) 5 True test_machine = Some (- 1, test_machine)
   \<and> ast_taskprocessor_push Handle None 5 True test_machine = Some (- 1, test_machine)
   \<and> ast_taskprocessor_push Handle (Some 1) 5 False test_machine = Some (- 1, test_machine)"
  using push_failure_leaves_state [of Null "Some 1" True 5 test_machine]
    push_failure_leaves_state [of Handle None True 5 test_machine]
    push_failure_leaves_state [of Handle "Some 1" False 5 test_machine]
  by blast

lemma shutting_down_execute:
  assumes "shutting_down (taskprocessor m)"
  shows "ast_taskprocessor_execute prog m = Some (0, m)"
  using assms by (simp add: ast_taskprocessor_execute_def execute_begin_def tps_taskprocessor_pop_def)

lemma step_shutting_down:
  assumes "shutting_down (taskprocessor (mach s))" "step prog a s = Some s1"
  shows "shutting_down (taskprocessor (mach s1))
     \<and> invoked (mach s1) = invoked (mach s)
     \<and> length (in_flight s1) \<le> length (in_flight s)
     \<and> (\<exists>xs. tps_queue (taskprocessor (mach s1)) = tps_queue (taskprocessor (mach s)) @ xs)"
proof (cases a)
  case (Push f d ok)
  with assms show ?thesis
    by (auto simp: ast_taskprocessor_push_def tps_task_alloc_def Let_def
        split: option.splits handle.splits if_splits)
next
  case Begin
  with assms show ?thesis
    by (auto simp: execute_begin_def tps_taskprocessor_pop_def)
next
  case (End i)
  with assms show ?thesis
    by (auto simp: execute_end_def tps_task_free_def Let_def split: option.splits if_splits)
qed

lemma run_shutting_down:
  "shutting_down (taskprocessor (mach s)) \<Longrightarrow> run prog acts s = Some s1 \<Longrightarrow>
   shutting_down (taskprocessor (mach s1))
     \<and> invoked (mach s1) = invoked (mach s)
     \<and> length (in_flight s1) \<le> length (in_flight s)
     \<and> (\<exists>xs. tps_queue (taskprocessor (mach s1)) = tps_queue (taskprocessor (mach s)) @ xs)"
proof (induction acts arbitrary: s)
  case Nil
  then show ?case by simp
next
  case (Cons a acts)
  from Cons.prems(2) obtain s2 where st: "step prog a s = Some s2" and r: "run prog acts s2 = Some s1"
    by (auto split: option.splits)
  from step_shutting_down [OF Cons.prems(1) st] Cons.IH [OF _ r]
  show ?case by fastforce
qed

lemma execute_unfold:
  "ast_taskprocessor_execute prog m =
     (case tps_taskprocessor_pop (taskprocessor m) of
        (None, p1) \<Rightarrow> Some (0, m\<lparr>taskprocessor := p1\<rparr>)
      | (Some t, p1) \<Rightarrow>
          execute_end t (m\<lparr>taskprocessor := p1, world := snd (prog (execute t) (datap t) (world m)),
                           invoked := invoked m @ [t]\<rparr>))"
  by (simp add: ast_taskprocessor_execute_def execute_begin_def split: prod.splits option.splits)

lemma execute_end_world:
  "map_option (\<lambda>(r, m1). (r, taskprocessor m1, envelopes m1, invoked m1)) (execute_end t (m\<lparr>world := w\<rparr>))
   = map_option (\<lambda>(r, m1). (r, taskprocessor m1, envelopes m1, invoked m1)) (execute_end t m)"
  by (simp add: execute_end_def tps_task_free_def Let_def split: option.splits)

lemma execute_end_stats:
  assumes "execute_end t m = Some (r, m1)" "stats (taskprocessor m) = Some st"
  shows "envelopes m1 = envelopes m - 1
     \<and> stats (taskprocessor m1) =
         Some \<lparr>max_qsize = (if max_qsize st < scast (tps_taskprocessor_depth (Some (taskprocessor m)))
                            then scast (tps_taskprocessor_depth (Some (taskprocessor m))) else max_qsize st),
               tasks_processed_count = tasks_processed_count st + 1\<rparr>"
  using assms
  by (auto simp: execute_end_def tps_task_free_def Let_def split: option.splits if_splits)

lemma pop_stats: "tps_taskprocessor_pop p = (x, p1) \<Longrightarrow> stats p1 = stats p"
  by (auto simp: tps_taskprocessor_pop_def split: if_splits list.splits)

text \<open>
  C10. Whatever the callbacks return and do (any two programs), execute-one gives the
  same return value, processor, envelope count and list of called tasks. When a task is
  popped, its envelope is freed, \<open>tasks_processed_count\<close> grows by exactly one and
  \<open>max_qsize\<close> becomes the larger of its old value and the depth left by the pop.
\<close>

theorem status_code_has_no_effect:
  "map_option (\<lambda>(r, m1). (r, taskprocessor m1, envelopes m1, invoked m1)) (ast_taskprocessor_execute prog1 m)
     = map_option (\<lambda>(r, m1). (r, taskprocessor m1, envelopes m1, invoked m1)) (ast_taskprocessor_execute prog2 m)
   \<and> (\<forall>t p1 st r m1. tps_taskprocessor_pop (taskprocessor m) = (Some t, p1)
        \<and> stats (taskprocessor m) = Some st
        \<and> ast_taskprocessor_execute prog1 m = Some (r, m1) \<longrightarrow>
        envelopes m1 = envelopes m - 1
        \<and> stats (taskprocessor m1) =
            Some \<lparr>max_qsize = (if max_qsize st < scast (tps_taskprocessor_depth (Some p1))
                               then scast (tps_taskprocessor_depth (Some p1)) else max_qsize st),
                  tasks_processed_count = tasks_processed_count st + 1\<rparr>)"
proof -
  have A: "map_option (\<lambda>(r, m1). (r, taskprocessor m1, envelopes m1, invoked m1)) (ast_taskprocessor_execute prog1 m)
     = map_option (\<lambda>(r, m1). (r, taskprocessor m1, envelopes m1, invoked m1)) (ast_taskprocessor_execute prog2 m)"
  proof (cases "tps_taskprocessor_pop (taskprocessor m)")
    case (Pair x p1)
    show ?thesis
    proof (cases x)
      case None
      with Pair show ?thesis by (simp add: execute_unfold)
    next
      case (Some t)
      have "\<And>w. m\<lparr>taskprocessor := p1, world := w, invoked := invoked m @ [t]\<rparr>
          = (m\<lparr>taskprocessor := p1, invoked := invoked m @ [t]\<rparr>)\<lparr>world := w\<rparr>"
        by simp
      with Pair Some show ?thesis
        by (simp only: execute_unfold prod.case option.case execute_end_world)
    qed
  qed
  have B: "envelopes m1 = envelopes m - 1
        \<and> stats (taskprocessor m1) =
            Some \<lparr>max_qsize = (if max_qsize st < scast (tps_taskprocessor_depth (Some p1))
                               then scast (tps_taskprocessor_depth (Some p1)) else max_qsize st),
                  tasks_processed_count = tasks_processed_count st + 1\<rparr>"
    if a: "tps_taskprocessor_pop (taskprocessor m) = (Some t, p1)
        \<and> stats (taskprocessor m) = Some st
        \<and> ast_taskprocessor_execute prog1 m = Some (r, m1)" for t p1 st r m1
  proof -
  from a have pp: "tps_taskprocessor_pop (taskprocessor m) = (Some t, p1)"
    and ss: "stats (taskprocessor m) = Some st"
    and ee: "ast_taskprocessor_execute prog1 m = Some (r, m1)"
    by simp_all
  from pp ss have s: "stats p1 = Some st" using pop_stats by fastforce
  from ee pp have "execute_end t (m\<lparr>taskprocessor := p1, world := snd (prog1 (execute t) (datap t) (world m)),
                           invoked := invoked m @ [t]\<rparr>) = Some (r, m1)"
    by (simp add: execute_unfold)
  from execute_end_stats [OF this] s
  show ?thesis
    by simp
  qed
  from A B show ?thesis by blast
qed

theorem status_code_has_no_effect_witness:
  "map_option (\<lambda>(r, m1). (r, taskprocessor m1, envelopes m1, invoked m1))
       (ast_taskprocessor_execute logging_program two_queued)
     = map_option (\<lambda>(r, m1). (r, taskprocessor m1, envelopes m1, invoked m1))
       (ast_taskprocessor_execute failing_program two_queued)
   \<and> (\<exists>r m1. ast_taskprocessor_execute logging_program two_queued = Some (r, m1)
        \<and> envelopes m1 = 1
        \<and> stats (taskprocessor m1) = Some \<lparr>max_qsize = 1, tasks_processed_count = 1\<rparr>)"
proof -
  have "\<exists>p1. tps_taskprocessor_pop (taskprocessor two_queued) = (Some (task 1 10), p1)
      \<and> tps_taskprocessor_depth (Some p1) = 1"
    by (simp add: fixture_defs tps_taskprocessor_pop_def tps_taskprocessor_depth_def)
  then obtain p1 where p: "tps_taskprocessor_pop (taskprocessor two_queued) = (Some (task 1 10), p1)"
    and d: "tps_taskprocessor_depth (Some p1) = 1" by blast
  have st: "stats (taskprocessor two_queued) = Some \<lparr>max_qsize = 0, tasks_processed_count = 0\<rparr>"
    and en: "envelopes two_queued = 2"
    by (simp_all add: fixture_defs)
  have "\<exists>r m1. ast_taskprocessor_execute logging_program two_queued = Some (r, m1)"
    by (simp add: fixture_defs core_defs Let_def)
  then obtain r m1 where e: "ast_taskprocessor_execute logging_program two_queued = Some (r, m1)"
    by blast
  note t = status_code_has_no_effect [of logging_program two_queued failing_program]
  from t have one: "map_option (\<lambda>(r, m1). (r, taskprocessor m1, envelopes m1, invoked m1))
       (ast_taskprocessor_execute logging_program two_queued)
     = map_option (\<lambda>(r, m1). (r, taskprocessor m1, envelopes m1, invoked m1))
       (ast_taskprocessor_execute failing_program two_queued)" by (rule conjunct1)
  from t p st e have "envelopes m1 = envelopes two_queued - 1
        \<and> stats (taskprocessor m1) =
            Some \<lparr>max_qsize = (if max_qsize \<lparr>max_qsize = 0, tasks_processed_count = 0\<rparr> < scast (tps_taskprocessor_depth (Some p1))
                               then scast (tps_taskprocessor_depth (Some p1)) else max_qsize \<lparr>max_qsize = 0, tasks_processed_count = 0\<rparr>),
                  tasks_processed_count = tasks_processed_count \<lparr>max_qsize = 0, tasks_processed_count = 0\<rparr> + 1\<rparr>"
    by blast
  with d en have "envelopes m1 = 1"
    "stats (taskprocessor m1) = Some \<lparr>max_qsize = 1, tasks_processed_count = 1\<rparr>"
    by simp_all
  with one e show ?thesis by blast
qed

lemma scast_depth_of_nat:
  assumes "n < 2 ^ 31"
  shows "(scast (ucast (of_nat n :: 64 word) :: 32 word) :: 64 word) = of_nat n"
proof -
  have "(scast (ucast (of_nat n :: 64 word) :: 32 word) :: 64 word)
      = word_of_int (sint (ucast (of_nat n :: 64 word) :: 32 word))"
    by (rule scast_eq)
  also have "\<dots> = word_of_int (int n)" by (simp only: sint_depth_of_nat [OF assms])
  finally show ?thesis by simp
qed

lemma depth_zero_iff:
  assumes "n < 2 ^ 31"
  shows "(ucast (of_nat n :: 64 word) :: 32 word) = 0 \<longleftrightarrow> n = 0"
proof
  assume "(ucast (of_nat n :: 64 word) :: 32 word) = 0"
  then have "sint (ucast (of_nat n :: 64 word) :: 32 word) = 0" by simp
  with sint_depth_of_nat [OF assms] show "n = 0" by simp
next
  assume "n = 0"
  then show "(ucast (of_nat n :: 64 word) :: 32 word) = 0" by simp
qed

lemma of_nat_word_mono:
  assumes "a \<le> b" "b < 2 ^ 31"
  shows "(of_nat a :: 64 word) \<le> of_nat b"
proof -
  from assms(2) have "b < 2 ^ 64" by (rule less_trans) simp
  with assms(1) show ?thesis
    by (simp add: of_nat_word_less_eq_iff take_bit_nat_eq_self)
qed

lemma execute_result_cases:
  assumes "ast_taskprocessor_execute prog m = Some (r, m1)"
  shows "(r = 0 \<or> r = 1)
    \<and> (shutting_down (taskprocessor m) \<or> tps_queue (taskprocessor m) = [] \<longrightarrow> r = 0 \<and> m1 = m)
    \<and> (r = 1 \<longleftrightarrow> \<not> shutting_down (taskprocessor m) \<and> tps_queue (taskprocessor m) \<noteq> []
                 \<and> tps_taskprocessor_depth (Some (taskprocessor m1)) \<noteq> 0)
    \<and> (\<not> shutting_down (taskprocessor m) \<and> tps_queue (taskprocessor m) \<noteq> [] \<longrightarrow>
          invoked m1 = invoked m @ [hd (tps_queue (taskprocessor m))]
          \<and> tps_queue (taskprocessor m1) = tl (tps_queue (taskprocessor m)))"
  using assms
  by (auto simp: core_defs Let_def split: option.splits prod.splits list.splits if_splits)

lemma execute_returns:
  "listener (taskprocessor m) \<noteq> None \<Longrightarrow> \<exists>r m1. ast_taskprocessor_execute prog m = Some (r, m1)"
  by (auto simp: core_defs Let_def split: option.splits prod.splits list.splits)

lemma execute_listener_effect:
  assumes e: "ast_taskprocessor_execute prog m = Some (r, m1)"
    and sd: "\<not> shutting_down (taskprocessor m)" and q: "tps_queue (taskprocessor m) \<noteq> []"
  shows "world m1 = snd (prog (execute (hd (tps_queue (taskprocessor m))))
                     (datap (hd (tps_queue (taskprocessor m)))) (world m))
     \<and> (r = 1 \<longrightarrow> listener (taskprocessor m1) = listener (taskprocessor m))
     \<and> (r = 0 \<longrightarrow> (\<exists>l. listener (taskprocessor m) = Some l
            \<and> listener (taskprocessor m1) =
                Some (l\<lparr>private_data := emptied (callbacks l) (private_data l)\<rparr>)))"
proof -
  from q obtain t rest where tq: "tps_queue (taskprocessor m) = t # rest" by (cases "tps_queue (taskprocessor m)") auto
  let ?p = "(taskprocessor m)\<lparr>tps_queue := rest, tps_queue_size := tps_queue_size (taskprocessor m) - 1\<rparr>"
  let ?m = "m\<lparr>taskprocessor := ?p, world := snd (prog (execute t) (datap t) (world m)),
              invoked := invoked m @ [t]\<rparr>"
  from sd tq have "tps_taskprocessor_pop (taskprocessor m) = (Some t, ?p)"
    by (simp add: tps_taskprocessor_pop_def)
  with e have ee: "execute_end t ?m = Some (r, m1)" by (simp add: execute_unfold)
  then show ?thesis using tq
    by (cases "stats (taskprocessor m)")
       (auto simp: execute_end_def tps_task_free_def Let_def split: option.splits if_splits)
qed

lemma execute_remaining:
  assumes e: "ast_taskprocessor_execute prog m = Some (r, m1)"
    and c: "tps_queue_size (taskprocessor m) = of_nat (length (tps_queue (taskprocessor m)))"
    and n: "length (tps_queue (taskprocessor m)) < 2 ^ 31"
  shows "r = 1 \<longleftrightarrow> \<not> shutting_down (taskprocessor m) \<and> tps_queue (taskprocessor m) \<noteq> []
                \<and> tps_queue (taskprocessor m1) \<noteq> []"
proof (cases "shutting_down (taskprocessor m) \<or> tps_queue (taskprocessor m) = []")
  case True
  with execute_result_cases [OF e] show ?thesis by auto
next
  case False
  then obtain t rest where sd: "\<not> shutting_down (taskprocessor m)"
    and tq: "tps_queue (taskprocessor m) = t # rest"
    by (cases "tps_queue (taskprocessor m)") auto
  from n tq have nr: "length rest < 2 ^ 31" by simp
  from c tq have cc: "tps_queue_size (taskprocessor m) = of_nat (Suc (length rest))" by simp
  from execute_result_cases [OF e] sd tq
  have a: "r = 1 \<longleftrightarrow> tps_taskprocessor_depth (Some (taskprocessor m1)) \<noteq> 0"
    and b: "tps_queue (taskprocessor m1) = rest" by auto
  let ?p = "(taskprocessor m)\<lparr>tps_queue := rest, tps_queue_size := tps_queue_size (taskprocessor m) - 1\<rparr>"
  let ?m = "m\<lparr>taskprocessor := ?p, world := snd (prog (execute t) (datap t) (world m)),
              invoked := invoked m @ [t]\<rparr>"
  from sd tq have "tps_taskprocessor_pop (taskprocessor m) = (Some t, ?p)"
    by (simp add: tps_taskprocessor_pop_def)
  with e have ee: "execute_end t ?m = Some (r, m1)" by (simp add: execute_unfold)
  then have "tps_queue_size (taskprocessor m1) = of_nat (length rest)" using cc
    by (cases "stats (taskprocessor m)")
       (auto simp: execute_end_def tps_task_free_def Let_def split: option.splits if_splits)
  then have "tps_taskprocessor_depth (Some (taskprocessor m1)) = ucast (of_nat (length rest) :: 64 word)"
    by (simp add: tps_taskprocessor_depth_def)
  with depth_zero_iff [OF nr] a b sd tq show ?thesis by simp
qed

text \<open>
  C2, as amended. On a processor whose listener is set, execute-one returns, and it
  returns 0 or 1. It returns 0 and changes nothing when no task is popped (the queue is
  empty or the processor is shutting down). Whenever a task is popped, it is the head of
  the queue and its callback is called. It returns 1 exactly when a task was popped and
  the depth read after its callback is not zero, and the listener is then left as it
  was. It returns 0 also when the depth read after the callback is zero, and the
  listener's \<open>emptied\<close> has then been called, once, on the listener's private data.
  On a processor whose counter equals the length of its queue and that holds fewer than
  \<open>2^31\<close> tasks, it returns 1 exactly when a task was popped and the queue is not
  empty afterwards; so it returns 0 when the task it ran was the last one.
\<close>

theorem execute_return_value:
  "(listener (taskprocessor m) \<noteq> None \<longrightarrow>
      (\<exists>r m1. ast_taskprocessor_execute prog m = Some (r, m1)))
   \<and> (\<forall>r m1. ast_taskprocessor_execute prog m = Some (r, m1) \<longrightarrow>
       (r = 0 \<or> r = 1)
       \<and> (shutting_down (taskprocessor m) \<or> tps_queue (taskprocessor m) = [] \<longrightarrow>
             r = 0 \<and> m1 = m)
       \<and> (r = 1 \<longleftrightarrow> \<not> shutting_down (taskprocessor m) \<and> tps_queue (taskprocessor m) \<noteq> []
                    \<and> tps_taskprocessor_depth (Some (taskprocessor m1)) \<noteq> 0)
       \<and> (\<not> shutting_down (taskprocessor m) \<and> tps_queue (taskprocessor m) \<noteq> [] \<longrightarrow>
             invoked m1 = invoked m @ [hd (tps_queue (taskprocessor m))]
             \<and> tps_queue (taskprocessor m1) = tl (tps_queue (taskprocessor m))
             \<and> world m1 = snd (prog (execute (hd (tps_queue (taskprocessor m))))
                                 (datap (hd (tps_queue (taskprocessor m)))) (world m))
             \<and> (r = 1 \<longrightarrow> listener (taskprocessor m1) = listener (taskprocessor m))
             \<and> (r = 0 \<longrightarrow> (\<exists>l. listener (taskprocessor m) = Some l
                    \<and> listener (taskprocessor m1) =
                        Some (l\<lparr>private_data := emptied (callbacks l) (private_data l)\<rparr>))))
       \<and> (tps_queue_size (taskprocessor m) = of_nat (length (tps_queue (taskprocessor m)))
            \<and> length (tps_queue (taskprocessor m)) < 2 ^ 31 \<longrightarrow>
             (r = 1 \<longleftrightarrow> \<not> shutting_down (taskprocessor m)
                       \<and> tps_queue (taskprocessor m) \<noteq> []
                       \<and> tps_queue (taskprocessor m1) \<noteq> [])))"
proof -
  have A: "listener (taskprocessor m) \<noteq> None \<longrightarrow>
      (\<exists>r m1. ast_taskprocessor_execute prog m = Some (r, m1))"
    using execute_returns [of m prog] by blast
  have B: "(r = 0 \<or> r = 1)
       \<and> (shutting_down (taskprocessor m) \<or> tps_queue (taskprocessor m) = [] \<longrightarrow>
             r = 0 \<and> m1 = m)
       \<and> (r = 1 \<longleftrightarrow> \<not> shutting_down (taskprocessor m) \<and> tps_queue (taskprocessor m) \<noteq> []
                    \<and> tps_taskprocessor_depth (Some (taskprocessor m1)) \<noteq> 0)
       \<and> (\<not> shutting_down (taskprocessor m) \<and> tps_queue (taskprocessor m) \<noteq> [] \<longrightarrow>
             invoked m1 = invoked m @ [hd (tps_queue (taskprocessor m))]
             \<and> tps_queue (taskprocessor m1) = tl (tps_queue (taskprocessor m))
             \<and> world m1 = snd (prog (execute (hd (tps_queue (taskprocessor m))))
                                 (datap (hd (tps_queue (taskprocessor m)))) (world m))
             \<and> (r = 1 \<longrightarrow> listener (taskprocessor m1) = listener (taskprocessor m))
             \<and> (r = 0 \<longrightarrow> (\<exists>l. listener (taskprocessor m) = Some l
                    \<and> listener (taskprocessor m1) =
                        Some (l\<lparr>private_data := emptied (callbacks l) (private_data l)\<rparr>))))
       \<and> (tps_queue_size (taskprocessor m) = of_nat (length (tps_queue (taskprocessor m)))
            \<and> length (tps_queue (taskprocessor m)) < 2 ^ 31 \<longrightarrow>
             (r = 1 \<longleftrightarrow> \<not> shutting_down (taskprocessor m)
                       \<and> tps_queue (taskprocessor m) \<noteq> []
                       \<and> tps_queue (taskprocessor m1) \<noteq> []))"
    if e: "ast_taskprocessor_execute prog m = Some (r, m1)" for r m1
    using execute_result_cases [OF e] execute_listener_effect [OF e] execute_remaining [OF e]
    by blast
  from A B show ?thesis by blast
qed

theorem execute_return_value_witness:
  "map_option fst (ast_taskprocessor_execute logging_program two_queued) = Some 1
   \<and> map_option (listener \<circ> taskprocessor \<circ> snd)
        (ast_taskprocessor_execute logging_program two_queued)
       = Some (listener (taskprocessor two_queued))
   \<and> map_option fst (ast_taskprocessor_execute logging_program one_queued) = Some 0
   \<and> map_option (map_option private_data \<circ> listener \<circ> taskprocessor \<circ> snd)
        (ast_taskprocessor_execute logging_program one_queued)
       = Some (Some [Task_pushed_called 1, Emptied_called])"
proof -
  have s2: "\<not> shutting_down (taskprocessor two_queued)"
    "tps_queue (taskprocessor two_queued) = [task 1 10, task 2 20]"
    "tps_queue_size (taskprocessor two_queued)
       = of_nat (length (tps_queue (taskprocessor two_queued)))"
    "length (tps_queue (taskprocessor two_queued)) < 2 ^ 31"
    "listener (taskprocessor two_queued) \<noteq> None"
    by (simp_all add: fixture_defs)
  note t2 = execute_return_value [of two_queued logging_program]
  from t2 s2(5) obtain r2 m2
    where e2: "ast_taskprocessor_execute logging_program two_queued = Some (r2, m2)" by blast
  from t2 e2 s2 have "tps_queue (taskprocessor m2) = tl [task 1 10, task 2 20]"
    by (metis list.distinct(1))
  then have "tps_queue (taskprocessor m2) \<noteq> []" by simp
  with t2 e2 s2 have r2: "r2 = 1" by (metis list.distinct(1))
  with t2 e2 s2 have l2: "listener (taskprocessor m2) = listener (taskprocessor two_queued)"
    by (metis list.distinct(1))
  have s1: "\<not> shutting_down (taskprocessor one_queued)"
    "tps_queue (taskprocessor one_queued) = [task 1 10]"
    "tps_queue_size (taskprocessor one_queued)
       = of_nat (length (tps_queue (taskprocessor one_queued)))"
    "length (tps_queue (taskprocessor one_queued)) < 2 ^ 31"
    "listener (taskprocessor one_queued)
       = Some (recording_listener\<lparr>private_data := [Task_pushed_called 1]\<rparr>)"
    by (simp_all add: fixture_defs)
  note t1 = execute_return_value [of one_queued logging_program]
  from t1 s1(5) obtain r1 m1
    where e1: "ast_taskprocessor_execute logging_program one_queued = Some (r1, m1)" by blast
  from t1 e1 s1 have "tps_queue (taskprocessor m1) = tl [task 1 10]"
    by (metis list.distinct(1))
  then have "tps_queue (taskprocessor m1) = []" by simp
  with t1 e1 s1(3,4) have n1: "r1 \<noteq> 1" by blast
  from t1 e1 have "r1 = 0 \<or> r1 = 1" by blast
  with n1 have r1: "r1 = 0" by simp
  with t1 e1 s1(1,2) obtain l where "listener (taskprocessor one_queued) = Some l"
    "listener (taskprocessor m1) = Some (l\<lparr>private_data := emptied (callbacks l) (private_data l)\<rparr>)"
    by (metis list.distinct(1))
  with s1(5) have "map_option private_data (listener (taskprocessor m1))
      = Some [Task_pushed_called 1, Emptied_called]"
    by (auto simp: recording_listener_def recording_callbacks_def recording_emptied_def)
  with e1 e2 r1 r2 l2 show ?thesis by simp
qed

text \<open>
  C2, as stated, fails: one task is pushed onto a fresh processor; execute-one pops it and
  calls its callback (the log shows its argument), and returns 0.
\<close>

theorem last_task_returns_zero:
  "map_option fst
     (Option.bind (push_all [task 1 10] test_machine) (ast_taskprocessor_execute logging_program))
     = Some 0
   \<and> map_option (invoked \<circ> snd)
     (Option.bind (push_all [task 1 10] test_machine) (ast_taskprocessor_execute logging_program))
     = Some [task 1 10]
   \<and> map_option (world \<circ> snd)
     (Option.bind (push_all [task 1 10] test_machine) (ast_taskprocessor_execute logging_program))
     = Some [10]"
  unfolding one_queued_reached
  by (simp add: fixture_defs core_defs Let_def)

lemma execute_end_result:
  assumes l: "listener (taskprocessor m) = Some l"
    and c: "tps_queue_size (taskprocessor m) = of_nat n" and n: "n < 2 ^ 31"
    and s: "stats (taskprocessor m) = Some st"
  shows "\<exists>m1. execute_end t m = Some (if n = 0 then 0 else 1, m1)
     \<and> tps_queue (taskprocessor m1) = tps_queue (taskprocessor m)
     \<and> tps_queue_size (taskprocessor m1) = of_nat n
     \<and> shutting_down (taskprocessor m1) = shutting_down (taskprocessor m)
     \<and> listener (taskprocessor m1) \<noteq> None
     \<and> stats (taskprocessor m1) =
          Some \<lparr>max_qsize = max (max_qsize st) (of_nat n),
                tasks_processed_count = tasks_processed_count st + 1\<rparr>
     \<and> world m1 = world m \<and> invoked m1 = invoked m"
proof -
  have d: "tps_taskprocessor_depth (Some (taskprocessor (tps_task_free (Some t) m)))
      = ucast (of_nat n :: 64 word)"
    by (simp add: tps_taskprocessor_depth_def tps_task_free_def c)
  have z: "(ucast (of_nat n :: 64 word) :: 32 word) = 0 \<longleftrightarrow> n = 0"
    by (rule depth_zero_iff [OF n])
  have e: "(scast (ucast (of_nat n :: 64 word) :: 32 word) :: 64 word) = of_nat n"
    by (rule scast_depth_of_nat [OF n])
  show ?thesis
    unfolding execute_end_def Let_def d e z
    using l c s by (cases "n = 0") (simp_all add: tps_task_free_def max_def not_less)
qed

lemma execute_head_stats:
  assumes l: "listener (taskprocessor m) \<noteq> None" and sd: "\<not> shutting_down (taskprocessor m)"
    and q: "tps_queue (taskprocessor m) = t # rest"
    and c: "tps_queue_size (taskprocessor m) = of_nat (Suc (length rest))"
    and n: "length rest < 2 ^ 31"
    and s: "stats (taskprocessor m) = Some st"
  shows "\<exists>m1. ast_taskprocessor_execute prog m = Some (if rest = [] then 0 else 1, m1)
     \<and> tps_queue (taskprocessor m1) = rest
     \<and> tps_queue_size (taskprocessor m1) = of_nat (length rest)
     \<and> \<not> shutting_down (taskprocessor m1)
     \<and> listener (taskprocessor m1) \<noteq> None
     \<and> stats (taskprocessor m1) =
          Some \<lparr>max_qsize = max (max_qsize st) (of_nat (length rest)),
                tasks_processed_count = tasks_processed_count st + 1\<rparr>
     \<and> world m1 = snd (prog (execute t) (datap t) (world m))
     \<and> invoked m1 = invoked m @ [t]"
proof -
  let ?p = "(taskprocessor m)\<lparr>tps_queue := rest, tps_queue_size := of_nat (length rest)\<rparr>"
  let ?m = "m\<lparr>taskprocessor := ?p, world := snd (prog (execute t) (datap t) (world m)),
              invoked := invoked m @ [t]\<rparr>"
  from sd q c have "tps_taskprocessor_pop (taskprocessor m) = (Some t, ?p)"
    by (simp add: tps_taskprocessor_pop_def)
  then have e: "ast_taskprocessor_execute prog m = execute_end t ?m"
    by (simp add: execute_unfold)
  from l obtain li where "listener (taskprocessor ?m) = Some li" by auto
  moreover have "tps_queue_size (taskprocessor ?m) = of_nat (length rest)" by simp
  moreover from s have "stats (taskprocessor ?m) = Some st" by simp
  ultimately obtain m1 where
    "execute_end t ?m = Some (if length rest = 0 then 0 else 1, m1)"
    "tps_queue (taskprocessor m1) = tps_queue (taskprocessor ?m)"
    "tps_queue_size (taskprocessor m1) = of_nat (length rest)"
    "shutting_down (taskprocessor m1) = shutting_down (taskprocessor ?m)"
    "listener (taskprocessor m1) \<noteq> None"
    "stats (taskprocessor m1) =
          Some \<lparr>max_qsize = max (max_qsize st) (of_nat (length rest)),
                tasks_processed_count = tasks_processed_count st + 1\<rparr>"
    "world m1 = world ?m" "invoked m1 = invoked ?m"
    using execute_end_result [OF _ _ n, of ?m _ st t] by blast
  with e sd show ?thesis by simp
qed

lemma execute_times_stats:
  "listener (taskprocessor m) \<noteq> None \<Longrightarrow> \<not> shutting_down (taskprocessor m) \<Longrightarrow>
   tps_queue (taskprocessor m) = q \<Longrightarrow> q \<noteq> [] \<Longrightarrow>
   tps_queue_size (taskprocessor m) = of_nat (length q) \<Longrightarrow> length q \<le> 2 ^ 31 \<Longrightarrow>
   stats (taskprocessor m) = Some st \<Longrightarrow>
   \<exists>rs m1. execute_times (length q) prog m = Some (rs, m1)
     \<and> tps_queue (taskprocessor m1) = []
     \<and> stats (taskprocessor m1) =
          Some \<lparr>max_qsize = max (max_qsize st) (of_nat (length q - 1)),
                tasks_processed_count = tasks_processed_count st + of_nat (length q)\<rparr>"
proof (induction q arbitrary: m st)
  case Nil
  then show ?case by simp
next
  case (Cons t q)
  from Cons.prems(6) have n: "length q < 2 ^ 31" by simp
  from Cons.prems(5) have c: "tps_queue_size (taskprocessor m) = of_nat (Suc (length q))" by simp
  from execute_head_stats [OF Cons.prems(1,2,3) c n Cons.prems(7), of prog]
  obtain m1 where e: "ast_taskprocessor_execute prog m = Some (if q = [] then 0 else 1, m1)"
    and f: "tps_queue (taskprocessor m1) = q"
      "tps_queue_size (taskprocessor m1) = of_nat (length q)"
      "\<not> shutting_down (taskprocessor m1)"
      "listener (taskprocessor m1) \<noteq> None"
    and s1: "stats (taskprocessor m1) =
          Some \<lparr>max_qsize = max (max_qsize st) (of_nat (length q)),
                tasks_processed_count = tasks_processed_count st + 1\<rparr>"
    by blast
  show ?case
  proof (cases "q = []")
    case True
    with e f s1 show ?thesis by simp
  next
    case False
    from n have le: "length q \<le> 2 ^ 31" by simp
    from Cons.IH [OF f(4) f(3) f(1) False f(2) le s1]
    obtain rs m2 where r: "execute_times (length q) prog m1 = Some (rs, m2)"
      and "tps_queue (taskprocessor m2) = []"
      and s2: "stats (taskprocessor m2) =
          Some \<lparr>max_qsize = max (max (max_qsize st) (of_nat (length q))) (of_nat (length q - 1)),
                tasks_processed_count = tasks_processed_count st + 1 + of_nat (length q)\<rparr>"
      by auto
    have "(of_nat (length q - 1) :: 64 word) \<le> of_nat (length q)"
      by (rule of_nat_word_mono [OF _ n]) simp
    then have "max (max (max_qsize st) (of_nat (length q))) (of_nat (length q - 1) :: 64 word)
        = max (max_qsize st) (of_nat (length q))"
      by (simp only: max.assoc max.absorb1)
    with e r s2 \<open>tps_queue (taskprocessor m2) = []\<close> show ?thesis
      by (simp add: add.assoc add.commute)
  qed
qed

text \<open>
  After a burst of \<open>K\<close> pushes onto a fresh processor (\<open>1 \<le> K \<le> 2^31\<close>) and
  \<open>K\<close> executions, all tasks are processed and \<open>max_qsize\<close> is \<open>K - 1\<close>.
\<close>

lemma max_qsize_is_burst_minus_one:
  assumes "ts \<noteq> []" "length ts \<le> 2 ^ 31"
  shows "\<exists>m1 rs m2. push_all ts (fresh nm l w) = Some m1
     \<and> execute_times (length ts) prog m1 = Some (rs, m2)
     \<and> tps_queue (taskprocessor m2) = []
     \<and> stats (taskprocessor m2) =
          Some \<lparr>max_qsize = of_nat (length ts - 1), tasks_processed_count = of_nat (length ts)\<rparr>"
proof -
  have li: "listener (taskprocessor (fresh nm l w)) \<noteq> None"
    by (simp add: fresh_def new_taskprocessor_def)
  from push_all_ok [OF li, of ts] obtain m1 where
    a: "push_all ts (fresh nm l w) = Some m1"
    "tps_queue (taskprocessor m1) = ts" "\<not> shutting_down (taskprocessor m1)"
    "listener (taskprocessor m1) \<noteq> None"
    "tps_queue_size (taskprocessor m1) = of_nat (length ts)"
    "stats (taskprocessor m1) = Some \<lparr>max_qsize = 0, tasks_processed_count = 0\<rparr>"
    by (auto simp: fresh_def new_taskprocessor_def)
  from execute_times_stats [OF a(4) a(3) a(2) assms(1) a(5) assms(2) a(6), of prog] a(1)
  show ?thesis by (auto simp: max_def)
qed

lemma execute_head_return:
  assumes l: "listener (taskprocessor m) \<noteq> None" and sd: "\<not> shutting_down (taskprocessor m)"
    and q: "tps_queue (taskprocessor m) = t # rest"
    and c: "tps_queue_size (taskprocessor m) = of_nat (Suc (length rest))"
    and n: "length rest < 2 ^ 31"
  shows "\<exists>m1. ast_taskprocessor_execute prog m = Some (if rest = [] then 0 else 1, m1)
     \<and> tps_queue (taskprocessor m1) = rest
     \<and> tps_queue_size (taskprocessor m1) = of_nat (length rest)
     \<and> \<not> shutting_down (taskprocessor m1)
     \<and> listener (taskprocessor m1) \<noteq> None
     \<and> world m1 = snd (prog (execute t) (datap t) (world m))
     \<and> invoked m1 = invoked m @ [t]"
proof (cases "stats (taskprocessor m)")
  case (Some st)
  from execute_head_stats [OF l sd q c n Some, of prog] show ?thesis by blast
next
  case None
  let ?p = "(taskprocessor m)\<lparr>tps_queue := rest, tps_queue_size := of_nat (length rest)\<rparr>"
  let ?m = "m\<lparr>taskprocessor := ?p, world := snd (prog (execute t) (datap t) (world m)),
              invoked := invoked m @ [t]\<rparr>"
  from sd q c have "tps_taskprocessor_pop (taskprocessor m) = (Some t, ?p)"
    by (simp add: tps_taskprocessor_pop_def)
  then have e: "ast_taskprocessor_execute prog m = execute_end t ?m"
    by (simp add: execute_unfold)
  have d: "tps_taskprocessor_depth (Some (taskprocessor (tps_task_free (Some t) ?m)))
      = ucast (of_nat (length rest) :: 64 word)"
    by (simp add: tps_taskprocessor_depth_def tps_task_free_def)
  from l obtain li where li: "listener (taskprocessor m) = Some li" by auto
  have "\<exists>m1. execute_end t ?m = Some (if rest = [] then 0 else 1, m1)
     \<and> tps_queue (taskprocessor m1) = rest
     \<and> tps_queue_size (taskprocessor m1) = of_nat (length rest)
     \<and> \<not> shutting_down (taskprocessor m1)
     \<and> listener (taskprocessor m1) \<noteq> None
     \<and> world m1 = snd (prog (execute t) (datap t) (world m))
     \<and> invoked m1 = invoked m @ [t]"
    unfolding execute_end_def Let_def d depth_zero_iff [OF n]
    using None li sd by (cases "rest = []") (simp_all add: tps_task_free_def)
  with e show ?thesis by simp
qed

text \<open>
  The worker loop, entered with the tasks queued (at most \<open>2^31\<close> of them), runs
  them all in queue order and returns to its wait with the queue empty.
\<close>

lemma worker_loop_drains_queue:
  "listener (taskprocessor m) \<noteq> None \<Longrightarrow> \<not> shutting_down (taskprocessor m) \<Longrightarrow>
   tps_queue (taskprocessor m) = q \<Longrightarrow>
   tps_queue_size (taskprocessor m) = of_nat (length q) \<Longrightarrow> length q \<le> 2 ^ 31 \<Longrightarrow>
   \<exists>m1. tps_processing_loop prog m = Some m1
     \<and> tps_queue (taskprocessor m1) = []
     \<and> invoked m1 = invoked m @ q
     \<and> world m1 = run_callbacks prog q (world m)"
proof (induction q arbitrary: m)
  case Nil
  then show ?case
    by (auto simp: core_defs run_callbacks_def)
next
  case (Cons t q)
  from Cons.prems(5) have n: "length q < 2 ^ 31" by simp
  from Cons.prems(4) have c: "tps_queue_size (taskprocessor m) = of_nat (Suc (length q))" by simp
  from execute_head_return [OF Cons.prems(1,2,3) c n, of prog]
  obtain m1 where e: "ast_taskprocessor_execute prog m = Some (if q = [] then 0 else 1, m1)"
    and f: "tps_queue (taskprocessor m1) = q"
      "tps_queue_size (taskprocessor m1) = of_nat (length q)"
      "\<not> shutting_down (taskprocessor m1)"
      "listener (taskprocessor m1) \<noteq> None"
      "world m1 = snd (prog (execute t) (datap t) (world m))"
      "invoked m1 = invoked m @ [t]"
    by blast
  show ?case
  proof (cases "q = []")
    case True
    with e f show ?thesis by (simp add: run_callbacks_def)
  next
    case False
    from n have le: "length q \<le> 2 ^ 31" by simp
    from Cons.IH [OF f(4) f(3) f(1) f(2) le] obtain m2 where
      "tps_processing_loop prog m1 = Some m2" "tps_queue (taskprocessor m2) = []"
      "invoked m2 = invoked m1 @ q" "world m2 = run_callbacks prog q (world m1)"
      by blast
    with e f False show ?thesis by (simp add: run_callbacks_def)
  qed
qed

text \<open>
  C5 on the code. One task is pushed onto a fresh processor and executed: the queue is
  empty, one task is counted as processed, and \<open>max_qsize\<close> is 0, not 1. With two
  tasks pushed and executed it is 1, not 2: the depth is read after the pop.
\<close>

theorem max_qsize_after_burst:
  "map_option (tps_queue \<circ> taskprocessor \<circ> snd)
     (Option.bind (push_all [task 1 10] test_machine) (execute_times 1 logging_program))
     = Some []
   \<and> map_option (stats \<circ> taskprocessor \<circ> snd)
     (Option.bind (push_all [task 1 10] test_machine) (execute_times 1 logging_program))
     = Some (Some \<lparr>max_qsize = 0, tasks_processed_count = 1\<rparr>)
   \<and> map_option (stats \<circ> taskprocessor \<circ> snd)
     (Option.bind (push_all [task 1 10, task 2 20] test_machine)
        (execute_times 2 logging_program))
     = Some (Some \<lparr>max_qsize = 1, tasks_processed_count = 2\<rparr>)"
  unfolding one_queued_reached two_queued_reached
  by (simp add: fixture_defs core_defs Let_def numeral_2_eq_2)

lemma previous_size_zero_iff:
  fixes w :: "64 word"
  assumes "w < 2 ^ 31"
  shows "(ucast w :: 32 word) = 0 \<longleftrightarrow> w = 0"
proof -
  from assms have "unat w < 2 ^ 31" by (simp add: word_less_nat_alt)
  then have "unat w < 2 ^ 32" by (rule less_trans) simp
  then have "unat (ucast w :: 32 word) = unat w"
    by (simp add: unsigned_ucast_eq take_bit_nat_eq_self)
  then show ?thesis by (metis unat_eq_0)
qed

lemma push_result_edge:
  assumes "ast_taskprocessor_push h task_exe d calloc_ok m = Some (0, m1)"
  shows "\<exists>f l. task_exe = Some f \<and> listener (taskprocessor m) = Some l
     \<and> tps_queue (taskprocessor m1) = tps_queue (taskprocessor m) @ [\<lparr>execute = f, datap = d\<rparr>]
     \<and> tps_queue_size (taskprocessor m1) = tps_queue_size (taskprocessor m) + 1
     \<and> listener (taskprocessor m1) =
         Some (l\<lparr>private_data :=
                  task_pushed (callbacks l)
                    (if (ucast (tps_queue_size (taskprocessor m)) :: 32 word) = 0 then 1 else 0)
                    (private_data l)\<rparr>)"
proof -
  from assms obtain f where f: "task_exe = Some f" and h: "h = Handle" and c: calloc_ok
    by (cases h; cases task_exe; cases calloc_ok)
       (auto simp: ast_taskprocessor_push_def tps_task_alloc_def Let_def split: option.splits)
  from assms f h c obtain l where l: "listener (taskprocessor m) = Some l"
    by (auto simp: ast_taskprocessor_push_def tps_task_alloc_def Let_def split: option.splits)
  from assms f h c l show ?thesis
    by (auto simp: ast_taskprocessor_push_def tps_task_alloc_def Let_def)
qed

text \<open>
  C4. A push with a callback and an envelope succeeds when the listener is set, and every
  push that returns 0 has appended the task, incremented \<open>tps_queue_size\<close>, and called
  the listener's \<open>task_pushed\<close> exactly once, on the listener's private data, with
  \<open>was_empty = 1\<close> if \<open>int previous_size\<close>, the copy of the old
  \<open>tps_queue_size\<close>, is zero and with \<open>was_empty = 0\<close> otherwise. For every
  processor holding fewer than \<open>2^31\<close> tasks (the range of that \<open>int\<close>) the copy is
  zero if and only if \<open>tps_queue_size\<close> was zero before the push.
\<close>

theorem push_reports_empty_edge:
  "(listener (taskprocessor m) \<noteq> None \<longrightarrow>
      (\<exists>m1. ast_taskprocessor_push Handle (Some f) d True m = Some (0, m1)))
   \<and> (\<forall>h task_exe calloc_ok m1.
        ast_taskprocessor_push h task_exe d calloc_ok m = Some (0, m1) \<longrightarrow>
        (\<exists>g l. task_exe = Some g \<and> listener (taskprocessor m) = Some l
          \<and> tps_queue (taskprocessor m1)
              = tps_queue (taskprocessor m) @ [\<lparr>execute = g, datap = d\<rparr>]
          \<and> tps_queue_size (taskprocessor m1) = tps_queue_size (taskprocessor m) + 1
          \<and> listener (taskprocessor m1) =
              Some (l\<lparr>private_data :=
                task_pushed (callbacks l)
                  (if (ucast (tps_queue_size (taskprocessor m)) :: 32 word) = 0 then 1 else 0)
                  (private_data l)\<rparr>)))
   \<and> (tps_queue_size (taskprocessor m) < 2 ^ 31 \<longrightarrow>
        ((ucast (tps_queue_size (taskprocessor m)) :: 32 word) = 0
           \<longleftrightarrow> tps_queue_size (taskprocessor m) = 0))"
  using push_ok [of m f d] push_result_edge [of _ _ d _ m] previous_size_zero_iff
  by blast

theorem push_reports_empty_edge_witness:
  "ast_taskprocessor_push Handle (Some 1) 10 True test_machine = Some (0, one_queued)
   \<and> map_option private_data (listener (taskprocessor one_queued)) = Some [Task_pushed_called 1]
   \<and> ast_taskprocessor_push Handle (Some 2) 20 True one_queued = Some (0, two_queued)
   \<and> map_option private_data (listener (taskprocessor two_queued))
       = Some [Task_pushed_called 1, Task_pushed_called 0]"
proof -
  have a: "ast_taskprocessor_push Handle (Some 1) 10 True test_machine = Some (0, one_queued)"
    by (simp add: fixture_defs ast_taskprocessor_push_def tps_task_alloc_def Let_def)
  have b: "ast_taskprocessor_push Handle (Some 2) 20 True one_queued = Some (0, two_queued)"
    by (simp add: fixture_defs ast_taskprocessor_push_def tps_task_alloc_def Let_def)
  have sa: "tps_queue_size (taskprocessor test_machine) < 2 ^ 31"
    by (simp add: fixture_defs)
  have sb: "tps_queue_size (taskprocessor one_queued) < 2 ^ 31"
    by (simp add: fixture_defs)
  have la: "listener (taskprocessor test_machine) = Some recording_listener"
    and za: "tps_queue_size (taskprocessor test_machine) = 0"
    and zb: "tps_queue_size (taskprocessor one_queued) \<noteq> 0"
    by (simp_all add: fixture_defs)
  note ta = push_reports_empty_edge [of test_machine 1 10]
  from ta sa za have ua: "(ucast (tps_queue_size (taskprocessor test_machine)) :: 32 word) = 0"
    by blast
  from ta a obtain l1
    where "listener (taskprocessor test_machine) = Some l1"
      and "listener (taskprocessor one_queued) =
        Some (l1\<lparr>private_data :=
          task_pushed (callbacks l1)
            (if (ucast (tps_queue_size (taskprocessor test_machine)) :: 32 word) = 0
             then 1 else 0)
            (private_data l1)\<rparr>)"
    by blast
  with la ua
  have one: "map_option private_data (listener (taskprocessor one_queued))
      = Some [Task_pushed_called 1]"
    by (simp add: recording_listener_def recording_callbacks_def recording_task_pushed_def)
  note tb = push_reports_empty_edge [of one_queued 2 20]
  from tb sb zb have ub: "(ucast (tps_queue_size (taskprocessor one_queued)) :: 32 word) \<noteq> 0"
    by blast
  from tb b obtain l2
    where "listener (taskprocessor one_queued) = Some l2"
      and "listener (taskprocessor two_queued) =
        Some (l2\<lparr>private_data :=
          task_pushed (callbacks l2)
            (if (ucast (tps_queue_size (taskprocessor one_queued)) :: 32 word) = 0
             then 1 else 0)
            (private_data l2)\<rparr>)"
    by blast
  with ub
  have "map_option private_data (listener (taskprocessor two_queued))
       = Some [Task_pushed_called 1, Task_pushed_called 0]"
    by (auto simp: one_queued_def recording_listener_def recording_callbacks_def
        recording_task_pushed_def)
  with one a b show ?thesis by simp
qed

text \<open>
  C6. On a processor that is shutting down, execute-one returns 0 and changes nothing,
  and along any run of pushes and executions the flag stays set, no callback is called,
  no execution begins, and the queue only grows at its tail.
\<close>

theorem shutting_down_is_terminal:
  assumes "shutting_down (taskprocessor (mach s))"
  shows "ast_taskprocessor_execute prog (mach s) = Some (0, mach s)
     \<and> (\<forall>acts s1. run prog acts s = Some s1 \<longrightarrow>
           shutting_down (taskprocessor (mach s1))
           \<and> invoked (mach s1) = invoked (mach s)
           \<and> length (in_flight s1) \<le> length (in_flight s)
           \<and> (\<exists>xs. tps_queue (taskprocessor (mach s1)) = tps_queue (taskprocessor (mach s)) @ xs))"
  using shutting_down_execute [OF assms] run_shutting_down [OF assms] by blast

theorem shutting_down_is_terminal_witness:
  "shutting_down (taskprocessor (mach stopping_system))
   \<and> tps_queue (taskprocessor (mach stopping_system)) = [task 1 10]
   \<and> ast_taskprocessor_execute logging_program (mach stopping_system)
       = Some (0, mach stopping_system)
   \<and> (\<exists>s1. run logging_program [Begin, Push (Some 2) 20 True, Begin] stopping_system = Some s1
         \<and> shutting_down (taskprocessor (mach s1)) \<and> invoked (mach s1) = []
         \<and> tps_queue (taskprocessor (mach s1)) = [task 1 10, task 2 20])"
proof -
  have sd: "shutting_down (taskprocessor (mach stopping_system))"
    and q: "tps_queue (taskprocessor (mach stopping_system)) = [task 1 10]"
    and i: "invoked (mach stopping_system) = []"
    by (simp_all add: fixture_defs)
  have "\<exists>s1. run logging_program [Begin, Push (Some 2) 20 True, Begin] stopping_system = Some s1
      \<and> tps_queue (taskprocessor (mach s1)) = [task 1 10, task 2 20]"
    by (simp add: fixture_defs core_defs Let_def)
  then obtain s1 where r: "run logging_program [Begin, Push (Some 2) 20 True, Begin] stopping_system = Some s1"
    and q1: "tps_queue (taskprocessor (mach s1)) = [task 1 10, task 2 20]" by blast
  from shutting_down_is_terminal [OF sd, of logging_program] r i
  have "ast_taskprocessor_execute logging_program (mach stopping_system)
       = Some (0, mach stopping_system)"
    and "shutting_down (taskprocessor (mach s1))" and "invoked (mach s1) = []"
    by metis+
  with r q q1 sd show ?thesis by blast
qed

section \<open>Properties of the registry and the lifecycle\<close>

lemmas registry_defs = ast_taskprocessor_get_def ast_taskprocessor_create_with_listener_def
  ast_taskprocessor_listener_alloc_def ast_taskprocessor_unreference_def ao2_find_def
  ao2_link_def ao2_unlink_def ao2_ref_tps_def ao2_ref_listener_def listener_shutdown_def
  listener_destroy_def tps_taskprocessor_destroy_def ast_strlen_zero_def
  TPS_REF_DEFAULT_def TPS_REF_IF_EXISTS_def

lemmas default_listener_defs = default_listener_callbacks_def default_listener_alloc_def
  default_listener_start_def default_listener_shutdown_def default_listener_destroy_def
  default_tps_wake_up_def default_tps_idle_def

text \<open>
  After the shutdown of a started default listener the worker has been joined: it has
  consumed the wake-up, \<open>dead\<close> is set and there is no thread any more.
\<close>

lemma default_listener_shutdown_joined:
  "poll_thread pvt = Some worker \<Longrightarrow>
   default_listener_shutdown pvt = pvt\<lparr>wake_up := 0, dead := 1, poll_thread := None\<rparr>"
  by (simp add: default_listener_shutdown_def default_tps_wake_up_def default_tps_idle_def)

lemma alpha_heap_created:
  "ast_taskprocessor_get (plenty 200 100) (Some ''alpha'') TPS_REF_DEFAULT empty_heap
     = Some (Some 100, alpha_heap)"
  by (simp add: registry_defs default_listener_defs alpha_heap_def empty_heap_def plenty_def Let_def)

lemma ghost_differs: "\<not> tps_cmp_cb (new_taskprocessor ''alpha'' 200) ''ghost''"
  by (simp add: tps_cmp_cb_def new_taskprocessor_def tolower_def)

lemma alpha_matches_without_case: "tps_cmp_cb (new_taskprocessor ''alpha'' 200) ''ALPHA''"
  by (simp add: tps_cmp_cb_def new_taskprocessor_def tolower_def)

lemma tps_lookup_miss:
  "\<forall>a \<in> set as. \<exists>t c. processors h a = Some (t, c) \<and> \<not> tps_cmp_cb t nm \<Longrightarrow>
   tps_lookup as nm h = Some None"
  by (induction as) auto

text \<open>
  C9. In a registry whose linked processors are all live and none of which has the
  requested name (compared without regard to case), a lookup with the flag
  \<open>TPS_REF_IF_EXISTS\<close> set returns NULL and leaves the heap as it was: no listener and
  no processor is allocated, no reference count changes, the registry lists what it
  listed, and no callback is called.
\<close>

theorem get_if_exists_miss:
  assumes "and create TPS_REF_IF_EXISTS \<noteq> 0"
    and "\<forall>a \<in> set (tps_singletons h). \<exists>t c. processors h a = Some (t, c) \<and> \<not> tps_cmp_cb t nm"
  shows "ast_taskprocessor_get env (Some nm) create h = Some (None, h)"
  using assms(1) tps_lookup_miss [OF assms(2)]
  by (simp add: ast_taskprocessor_get_def ao2_find_def)

theorem get_if_exists_miss_witness:
  "ast_taskprocessor_get (plenty 201 101) (Some ''ghost'') TPS_REF_IF_EXISTS alpha_heap
     = Some (None, alpha_heap)"
proof -
  have a: "and TPS_REF_IF_EXISTS TPS_REF_IF_EXISTS \<noteq> 0"
    by (simp add: TPS_REF_IF_EXISTS_def)
  have b: "\<forall>a \<in> set (tps_singletons alpha_heap).
      \<exists>t c. processors alpha_heap a = Some (t, c) \<and> \<not> tps_cmp_cb t ''ghost''"
    using ghost_differs by (simp add: alpha_heap_def)
  from get_if_exists_miss [OF a b] show ?thesis .
qed

lemma unreference_returns_null:
  "ast_taskprocessor_unreference x g = Some (r, g1) \<Longrightarrow> r = None"
  by (auto simp: ast_taskprocessor_unreference_def Let_def split: option.splits if_splits prod.splits)

lemma unreference_keeps:
  assumes "processors h a = Some (t, c)" "3 < c"
  shows "ast_taskprocessor_unreference (Some a) h
     = Some (None, h\<lparr>processors := (processors h)(a \<mapsto> (t, c - 1))\<rparr>)"
  using assms by (simp add: ast_taskprocessor_unreference_def ao2_ref_tps_def)

lemma unreference_finalizes:
  assumes p: "processors h a = Some (t, 3)" and lt: "listener t = Some la"
    and l: "listeners h la = Some (l, lc)" and bk: "tps l = Some a"
    and linked: "a \<in> set (tps_singletons h)" and d: "distinct (tps_singletons h)"
    and r: "ast_taskprocessor_unreference (Some a) h = Some (r, h1)"
  shows "a \<notin> set (tps_singletons h1) \<and> processors h1 a = None
     \<and> history h1 = history h @ (la, Shutdown_called) # (if lc \<le> 1 then [(la, Destroy_called)] else [])
     \<and> listeners h1 la =
         (if lc \<le> 1 then None
          else Some (l\<lparr>private_data := shutdown (callbacks l) (private_data l), tps := None\<rparr>, lc - 1))"
  using assms
  by (auto simp: ast_taskprocessor_unreference_def ao2_ref_tps_def ao2_unlink_def
      listener_shutdown_def tps_taskprocessor_destroy_def ao2_ref_listener_def listener_destroy_def
      Let_def split: option.splits if_splits prod.splits)

lemma unreference_finalizes_returns:
  assumes p: "processors h a = Some (t, 3)" and lt: "listener t = Some la"
    and l: "listeners h la = Some (l, lc)" and bk: "tps l = Some a"
    and linked: "a \<in> set (tps_singletons h)"
    and ok: "1 < lc \<or> destroy (callbacks l) (Some (shutdown (callbacks l) (private_data l))) \<noteq> None"
  shows "\<exists>r h1. ast_taskprocessor_unreference (Some a) h = Some (r, h1)"
  using assms
  by (auto simp: ast_taskprocessor_unreference_def ao2_ref_tps_def ao2_unlink_def
      listener_shutdown_def tps_taskprocessor_destroy_def ao2_ref_listener_def listener_destroy_def
      Let_def split: option.splits if_splits prod.splits)

lemma destroy_keeps_processors:
  assumes "tps_taskprocessor_destroy t g = Some g1"
  shows "processors g1 = processors g \<and> tps_singletons g1 = tps_singletons g"
  using assms
  by (auto simp: tps_taskprocessor_destroy_def ao2_ref_listener_def listener_destroy_def
      split: option.splits prod.splits if_splits)

lemma last_reference_releases:
  assumes "processors g a = Some (t, c)" and "c - 1 \<le> 0"
    and "ao2_ref_tps a (- 1) g = Some (old, g1)"
  shows "processors g1 a = None \<and> tps_singletons g1 = tps_singletons g \<and> old = c"
proof -
  from assms obtain g2 where
    d: "tps_taskprocessor_destroy t (g\<lparr>processors := (processors g)(a := None)\<rparr>) = Some g2"
    and e: "g1 = g2" "old = c"
    by (auto simp: ao2_ref_tps_def split: option.splits)
  from destroy_keeps_processors [OF d] e show ?thesis by simp
qed

text \<open>
  With fewer than three references on a linked processor, the caller holds none of its
  own: the code then releases the processor and goes on using it.
\<close>

lemma unreference_below_baseline_faults:
  assumes p: "processors h a = Some (t, c)" and c: "c < 3" and li: "a \<in> set (tps_singletons h)"
  shows "ast_taskprocessor_unreference (Some a) h = None"
proof (cases "ao2_ref_tps a (- 1) h")
  case None
  then show ?thesis by (simp add: ast_taskprocessor_unreference_def)
next
  case (Some r)
  obtain old h1 where r: "r = (old, h1)" by (cases r)
  show ?thesis
  proof (cases "c \<le> 1")
    case True
    then have "c - 1 \<le> 0" by simp
    from last_reference_releases [OF p this] Some r
    have g: "processors h1 a = None" "tps_singletons h1 = tps_singletons h" "old = c" by simp_all
    with li have "ao2_unlink a h1 = None"
      by (simp add: ao2_unlink_def ao2_ref_tps_def)
    with Some r g True show ?thesis by (simp add: ast_taskprocessor_unreference_def)
  next
    case False
    with c have c2: "c = 2" by simp
    with p Some r have h1: "h1 = h\<lparr>processors := (processors h)(a \<mapsto> (t, 1))\<rparr>" "old = 2"
      by (simp_all add: ao2_ref_tps_def)
    let ?g = "h1\<lparr>tps_singletons := remove1 a (tps_singletons h1)\<rparr>"
    have pg: "processors ?g a = Some (t, 1)" using h1 by simp
    have "\<forall>h2. ao2_unlink a h1 = Some h2 \<longrightarrow> processors h2 a = None"
    proof (intro allI impI)
      fix h2 assume u: "ao2_unlink a h1 = Some h2"
      with li h1 obtain o2 where "ao2_ref_tps a (- 1) ?g = Some (o2, h2)"
        by (auto simp: ao2_unlink_def)
      from last_reference_releases [OF pg _ this] show "processors h2 a = None" by simp
    qed
    with Some r h1 show ?thesis
      by (auto simp: ast_taskprocessor_unreference_def split: option.splits)
  qed
qed

text \<open>
  C8. \<open>ast_taskprocessor_unreference\<close> returns NULL whenever it returns, also for a
  NULL handle, which changes nothing. For a linked processor with its listener attached
  and at least three references (the caller's, the registry's, the listener's): if the
  count does not drop to the baseline of two, the call returns and only the count has
  changed; if it drops to two, the call returns (unless the listener's \<open>destroy\<close>
  faults), the processor is unlinked from the registry, the listener's \<open>shutdown\<close> is
  called, the listener gives up its reference (which releases the processor) and loses
  the processor's reference (which destroys it when that was its last one).
\<close>

theorem unreference_finalizes_at_baseline:
  assumes "processors h a = Some (t, c)" and "3 \<le> c"
    and "listener t = Some la" and "listeners h la = Some (l, lc)" and "tps l = Some a"
    and "a \<in> set (tps_singletons h)" and "distinct (tps_singletons h)"
  shows "(\<forall>x g r1 g1. ast_taskprocessor_unreference x g = Some (r1, g1) \<longrightarrow> r1 = None)
     \<and> ast_taskprocessor_unreference None h = Some (None, h)
     \<and> (c - 1 \<noteq> 2 \<longrightarrow>
           ast_taskprocessor_unreference (Some a) h
             = Some (None, h\<lparr>processors := (processors h)(a \<mapsto> (t, c - 1))\<rparr>))
     \<and> (c - 1 = 2 \<longrightarrow>
           (1 < lc \<or> destroy (callbacks l) (Some (shutdown (callbacks l) (private_data l))) \<noteq> None
              \<longrightarrow> (\<exists>h1. ast_taskprocessor_unreference (Some a) h = Some (None, h1)))
           \<and> (\<forall>r h1. ast_taskprocessor_unreference (Some a) h = Some (r, h1) \<longrightarrow>
                 a \<notin> set (tps_singletons h1) \<and> processors h1 a = None
                 \<and> history h1 = history h @ (la, Shutdown_called)
                       # (if lc \<le> 1 then [(la, Destroy_called)] else [])
                 \<and> listeners h1 la =
                     (if lc \<le> 1 then None
                      else Some (l\<lparr>private_data := shutdown (callbacks l) (private_data l),
                                   tps := None\<rparr>, lc - 1))))"
proof -
  have A: "\<forall>x g r1 g1. ast_taskprocessor_unreference x g = Some (r1, g1) \<longrightarrow> r1 = None"
    using unreference_returns_null by blast
  have B: "ast_taskprocessor_unreference None h = Some (None, h)"
    by (simp add: ast_taskprocessor_unreference_def)
  have C: "ast_taskprocessor_unreference (Some a) h
             = Some (None, h\<lparr>processors := (processors h)(a \<mapsto> (t, c - 1))\<rparr>)" if "c - 1 \<noteq> 2"
  proof -
    from that assms(2) have "3 < c" by simp
    from unreference_keeps [OF assms(1) this] show ?thesis .
  qed
  have D: "\<exists>h1. ast_taskprocessor_unreference (Some a) h = Some (None, h1)"
    if "c - 1 = 2"
      "1 < lc \<or> destroy (callbacks l) (Some (shutdown (callbacks l) (private_data l))) \<noteq> None"
  proof -
    from that(1) assms(1) have "processors h a = Some (t, 3)" by simp
    from unreference_finalizes_returns [OF this assms(3,4,5,6) that(2)] A
    show ?thesis by blast
  qed
  have E: "a \<notin> set (tps_singletons h1) \<and> processors h1 a = None
           \<and> history h1 = history h @ (la, Shutdown_called)
                 # (if lc \<le> 1 then [(la, Destroy_called)] else [])
           \<and> listeners h1 la =
               (if lc \<le> 1 then None
                else Some (l\<lparr>private_data := shutdown (callbacks l) (private_data l),
                             tps := None\<rparr>, lc - 1))"
    if "c - 1 = 2" "ast_taskprocessor_unreference (Some a) h = Some (r, h1)" for r h1
  proof -
    from that(1) assms(1) have "processors h a = Some (t, 3)" by simp
    from unreference_finalizes [OF this assms(3,4,5,6,7) that(2)] show ?thesis .
  qed
  from A B C D E show ?thesis by blast
qed

lemma alpha_heap_shared_found:
  "ast_taskprocessor_get (plenty 201 101) (Some ''ALPHA'') TPS_REF_DEFAULT alpha_heap
     = Some (Some 100, alpha_heap_shared)"
  by (simp add: registry_defs alpha_heap_def alpha_heap_shared_def tps_cmp_cb_def
      new_taskprocessor_def tolower_def)

theorem unreference_finalizes_at_baseline_witness:
  "ast_taskprocessor_unreference (Some 100) alpha_heap_shared = Some (None, alpha_heap)
   \<and> (\<exists>h1. ast_taskprocessor_unreference (Some 100) alpha_heap = Some (None, h1)
         \<and> 100 \<notin> set (tps_singletons h1) \<and> processors h1 100 = None
         \<and> listeners h1 200 = None
         \<and> history h1 = [(200, Start_called), (200, Shutdown_called), (200, Destroy_called)])"
proof -
  let ?l = "\<lparr>callbacks = default_listener_callbacks True (Some 1),
          private_data = \<lparr>poll_thread = Some 1, wake_up = 0, dead = 0\<rparr>,
          tps = Some (100::nat)\<rparr>"
  have ps: "processors alpha_heap_shared 100 = Some (new_taskprocessor ''alpha'' 200, 4)"
    and ls: "listeners alpha_heap_shared 200 = Some (?l, 1)"
    and cs: "100 \<in> set (tps_singletons alpha_heap_shared)"
      "distinct (tps_singletons alpha_heap_shared)"
    by (simp_all add: alpha_heap_shared_def alpha_heap_def)
  have lt: "listener (new_taskprocessor ''alpha'' (200::nat)) = Some 200"
    by (simp add: new_taskprocessor_def)
  have bk: "tps ?l = Some 100" by simp
  have n4: "3 \<le> (4::int)" and m4: "(4::int) - 1 \<noteq> 2" by simp_all
  from unreference_finalizes_at_baseline [OF ps n4 lt ls bk cs] m4
  have "ast_taskprocessor_unreference (Some 100) alpha_heap_shared
      = Some (None, alpha_heap_shared\<lparr>processors :=
          (processors alpha_heap_shared)(100 \<mapsto> (new_taskprocessor ''alpha'' 200, 4 - 1))\<rparr>)"
    by blast
  then have one:
    "ast_taskprocessor_unreference (Some 100) alpha_heap_shared = Some (None, alpha_heap)"
    by (simp add: alpha_heap_shared_def alpha_heap_def)
  have pa: "processors alpha_heap 100 = Some (new_taskprocessor ''alpha'' 200, 3)"
    and la: "listeners alpha_heap 200 = Some (?l, 1)"
    and ca: "100 \<in> set (tps_singletons alpha_heap)" "distinct (tps_singletons alpha_heap)"
    and ha: "history alpha_heap = [(200, Start_called)]"
    by (simp_all add: alpha_heap_def)
  have n3: "3 \<le> (3::int)" and m3: "(3::int) - 1 = 2" by simp_all
  have fine: "1 < (1::int)
      \<or> destroy (callbacks ?l) (Some (shutdown (callbacks ?l) (private_data ?l))) \<noteq> None"
    by (simp add: default_listener_defs)
  note t = unreference_finalizes_at_baseline [OF pa n3 lt la bk ca]
  from t m3 fine obtain h2
    where f1: "ast_taskprocessor_unreference (Some 100) alpha_heap = Some (None, h2)"
    by blast
  from t m3 f1
  have "100 \<notin> set (tps_singletons h2)" "processors h2 100 = None"
    "history h2 = history alpha_heap @ (200, Shutdown_called)
        # (if (1::int) \<le> 1 then [(200, Destroy_called)] else [])"
    "listeners h2 200 =
       (if (1::int) \<le> 1 then None
        else Some (?l\<lparr>private_data := shutdown (callbacks ?l) (private_data ?l),
                     tps := None\<rparr>, 1 - 1))"
    by blast+
  with ha have "100 \<notin> set (tps_singletons h2)" "processors h2 100 = None"
    "listeners h2 200 = None"
    "history h2 = [(200, Start_called), (200, Shutdown_called), (200, Destroy_called)]"
    by simp_all
  with f1 one show ?thesis by blast
qed

end
